theory Spec2Isabelle
  imports Complex_Main
begin

section \<open>Numbers\<close>

text \<open>
  Python's unbounded \<open>int\<close> is \<open>int\<close>. A Python \<open>float\<close> is modelled by an exact
  \<open>real\<close>: rounding error of the binary representation is outside this model.
  \<open>int(x)\<close> on a float truncates toward zero.
\<close>

definition py_int :: "real \<Rightarrow> int" where
  "py_int v = (if 0 \<le> v then \<lfloor>v\<rfloor> else \<lceil>v\<rceil>)"


section \<open>Components (game/ecs/components.py)\<close>

subsection \<open>Health\<close>

record Health =
  max_hp :: int
  hp :: int

text \<open>\<open>Health.take_damage\<close>: the updated component and the returned actual damage.\<close>

definition take_damage :: "Health \<Rightarrow> int \<Rightarrow> Health \<times> int" where
  "take_damage h amount =
     (let old_hp = hp h;
          h' = h\<lparr>hp := max 0 (hp h - amount)\<rparr>
      in (h', old_hp - hp h'))"

definition is_alive :: "Health \<Rightarrow> bool" where
  "is_alive h \<longleftrightarrow> hp h > 0"

subsection \<open>Damage\<close>

record Damage =
  base :: int
  crit_chance :: real
  crit_multiplier :: real
  bonus_damage :: int

text \<open>
  \<open>Damage.calculate_damage(is_crit)\<close>. The argument \<open>roll\<close> is the value that
  \<open>random.random()\<close> yields; it is read only when \<open>is_crit\<close> is \<open>None\<close>.
\<close>

definition calculate_damage :: "Damage \<Rightarrow> bool option \<Rightarrow> real \<Rightarrow> int \<times> bool" where
  "calculate_damage d is_crit roll =
     (let c = (case is_crit of None \<Rightarrow> roll < crit_chance d | Some b \<Rightarrow> b);
          damage = base d + bonus_damage d
      in (if c then py_int (of_int damage * crit_multiplier d) else damage, c))"

subsection \<open>Experience\<close>

record Experience =
  level :: int
  xp :: int
  next_xp :: int
  xp_multiplier :: real

text \<open>
  The \<open>while self.xp >= self.next_xp\<close> loop of \<open>Experience.add_xp\<close>. The loop need not
  end (with \<open>next_xp = 0\<close> it never does), so not returning is the value \<open>None\<close>.
\<close>

partial_function (option) add_xp_loop :: "Experience \<Rightarrow> bool \<Rightarrow> (Experience \<times> bool) option" where
  "add_xp_loop e leveled_up =
     (if xp e \<ge> next_xp e
      then add_xp_loop
             (e\<lparr>xp := xp e - next_xp e,
                level := level e + 1,
                next_xp := py_int (of_int (next_xp e) * 1.5)\<rparr>) True
      else Some (e, leveled_up))"

declare add_xp_loop.simps [code]

definition add_xp :: "Experience \<Rightarrow> int \<Rightarrow> (Experience \<times> bool) option" where
  "add_xp e amount =
     (let adjusted_amount = py_int (of_int amount * xp_multiplier e)
      in add_xp_loop (e\<lparr>xp := xp e + adjusted_amount\<rparr>) False)"

subsection \<open>StatusEffect and StatusEffects\<close>

datatype StatusEffectType =
  SLOW | SLOWED | POISON | BURN | FREEZE | STUN | REGEN | SPEED_BOOST | INVULNERABLE

text \<open>The field \<open>value\<close> of the source is \<open>effect_value\<close> here.\<close>

record StatusEffect =
  effect_type :: StatusEffectType
  duration :: real
  effect_value :: real
  tick_rate :: real
  last_tick :: real

text \<open>
  \<open>StatusEffects.effects\<close> is the list of the component's effects, in order.
  \<open>add_effect\<close>: the first effect of the same kind gets the new duration and nothing
  else of it changes; with no such effect the new one goes to the end of the list.
\<close>

fun add_effect :: "StatusEffect list \<Rightarrow> StatusEffect \<Rightarrow> StatusEffect list" where
  "add_effect [] effect = [effect]"
| "add_effect (existing # rest) effect =
     (if effect_type existing = effect_type effect
      then existing\<lparr>duration := duration effect\<rparr> # rest
      else existing # add_effect rest effect)"

definition remove_effect :: "StatusEffect list \<Rightarrow> StatusEffectType \<Rightarrow> StatusEffect list" where
  "remove_effect effs t = filter (\<lambda>e. effect_type e \<noteq> t) effs"

definition has_effect :: "StatusEffect list \<Rightarrow> StatusEffectType \<Rightarrow> bool" where
  "has_effect effs t \<longleftrightarrow> (\<exists>e \<in> set effs. effect_type e = t)"

definition get_effect :: "StatusEffect list \<Rightarrow> StatusEffectType \<Rightarrow> StatusEffect option" where
  "get_effect effs t = find (\<lambda>e. effect_type e = t) effs"

text \<open>
  \<open>StatusEffects.update\<close> walks a copy of the list, changes each effect object in place and
  calls \<open>self.effects.remove(effect)\<close>, which drops the first element that is the object
  itself or equals it field by field. The effect objects are kept in a store, indexed by
  their place in the list at the start of the call (the objects of one list are taken
  to be different objects); the list itself is the list of their indices. A \<open>remove\<close> that
  finds nothing raises \<open>ValueError\<close>: \<open>None\<close>.
\<close>

fun list_remove :: "StatusEffect list \<Rightarrow> nat \<Rightarrow> nat list \<Rightarrow> nat list option" where
  "list_remove store i [] = None"
| "list_remove store i (j # js) =
     (if j = i \<or> store ! j = store ! i then Some js
      else map_option ((#) j) (list_remove store i js))"

fun update_loop ::
  "real \<Rightarrow> nat list \<Rightarrow> StatusEffect list \<Rightarrow> nat list \<Rightarrow> (StatusEffect list \<times> nat list) option"
where
  "update_loop dt [] store cur = Some (store, cur)"
| "update_loop dt (i # rest) store cur =
     (let effect = (store ! i)\<lparr>duration := duration (store ! i) - dt\<rparr>;
          store' = store[i := effect]
      in if duration effect \<le> 0
         then (case list_remove store' i cur of
                 None \<Rightarrow> None
               | Some cur' \<Rightarrow> update_loop dt rest store' cur')
         else update_loop dt rest store' cur)"

definition update_effects :: "real \<Rightarrow> StatusEffect list \<Rightarrow> StatusEffect list option" where
  "update_effects dt effs =
     (case update_loop dt [0..<length effs] effs [0..<length effs] of
        None \<Rightarrow> None
      | Some (store, cur) \<Rightarrow> Some (map ((!) store) cur))"

text \<open>The invariant of the component: at most one effect of each kind.\<close>

definition one_per_kind :: "StatusEffect list \<Rightarrow> bool" where
  "one_per_kind effs \<longleftrightarrow> distinct (map effect_type effs)"

text \<open>What one tick of \<open>dt\<close> does to one effect: \<open>effect.duration -= dt\<close>.\<close>

definition tick :: "real \<Rightarrow> StatusEffect \<Rightarrow> StatusEffect" where
  "tick dt e = e\<lparr>duration := duration e - dt\<rparr>"

text \<open>Three effects used as concrete inputs.\<close>

definition slow2 :: StatusEffect where
  "slow2 = \<lparr>effect_type = SLOW, duration = 2, effect_value = 1 / 2, tick_rate = 1, last_tick = 0\<rparr>"

definition poison1 :: StatusEffect where
  "poison1 = \<lparr>effect_type = POISON, duration = 1, effect_value = 3, tick_rate = 1, last_tick = 0\<rparr>"

definition slow5 :: StatusEffect where
  "slow5 = \<lparr>effect_type = SLOW, duration = 5, effect_value = 9 / 10, tick_rate = 1, last_tick = 0\<rparr>"

subsection \<open>Transform, Faction, Weapon, Collider, Enemy\<close>

text \<open>
  The fields \<open>x\<close>, \<open>y\<close>, \<open>dx\<close>, \<open>dy\<close> of \<open>Transform\<close> are \<open>pos_x\<close>, \<open>pos_y\<close>, \<open>vel_dx\<close>, \<open>vel_dy\<close>
  here, and \<open>Weapon.range\<close> is \<open>weapon_range\<close>.
\<close>

record Transform =
  pos_x :: real
  pos_y :: real
  vel_dx :: real
  vel_dy :: real

datatype FactionType = PLAYER | ENEMY | BOSS | NEUTRAL

record Faction =
  tag :: FactionType

definition is_enemy_of :: "Faction \<Rightarrow> Faction \<Rightarrow> bool" where
  "is_enemy_of self other =
     (if tag self = PLAYER then tag other = ENEMY \<or> tag other = BOSS
      else if tag self = ENEMY \<or> tag self = BOSS then tag other = PLAYER
      else False)"

datatype WeaponType = SWORD | SPEAR | CROSSBOW

record Weapon =
  weapon_type :: WeaponType
  attack_delay :: real
  weapon_range :: real
  projectile_speed :: real
  reload_time :: real
  penetration :: int
  modifiers :: "string \<rightharpoonup> real"
  last_attack_time :: real
  ammo :: int

definition can_attack :: "Weapon \<Rightarrow> real \<Rightarrow> bool" where
  "can_attack wp current_time =
     (let time_since_attack = current_time - last_attack_time wp
      in time_since_attack \<ge> attack_delay wp)"

definition get_effective_range :: "Weapon \<Rightarrow> real" where
  "get_effective_range wp =
     (let range_mod = (case modifiers wp ''range_multiplier'' of None \<Rightarrow> 1 | Some m \<Rightarrow> m)
      in weapon_range wp * range_mod)"

text \<open>
  A \<open>pygame.Rect\<close>: left and top corner, width and height, all integers; its \<open>right\<close> is
  \<open>left + width\<close> and its \<open>bottom\<close> is \<open>top + height\<close>.
\<close>

record Rect =
  rect_left :: int
  rect_top :: int
  rect_width :: int
  rect_height :: int

definition rect_right :: "Rect \<Rightarrow> int" where
  "rect_right r = rect_left r + rect_width r"

definition rect_bottom :: "Rect \<Rightarrow> int" where
  "rect_bottom r = rect_top r + rect_height r"

record Collider =
  width :: int
  height :: int
  solid :: bool
  hitbox :: "Rect option"

definition get_rect :: "Collider \<Rightarrow> Transform \<Rightarrow> Rect" where
  "get_rect c t =
     (case hitbox c of
        Some hb \<Rightarrow>
          \<lparr>rect_left = py_int (pos_x t) + rect_left hb, rect_top = py_int (pos_y t) + rect_top hb,
           rect_width = rect_width hb, rect_height = rect_height hb\<rparr>
      | None \<Rightarrow>
          \<lparr>rect_left = py_int (pos_x t), rect_top = py_int (pos_y t),
           rect_width = width c, rect_height = height c\<rparr>)"

record Enemy =
  enemy_type :: string

section \<open>Entities (game/ecs/entities.py) and events (game/core/events.py)\<close>

text \<open>
  An entity holds at most one component of each class: \<open>Entity.components\<close>, a dict keyed
  by the class, is a record of optional components (the classes the combat code reads).
\<close>

record Entity =
  transform :: "Transform option"
  health :: "Health option"
  damage :: "Damage option"
  faction :: "Faction option"
  weapon :: "Weapon option"
  experience :: "Experience option"
  collider :: "Collider option"
  enemy :: "Enemy option"

text \<open>The events the combat system emits, with the entries of their \<open>data\<close> dict in order.\<close>

datatype GameEvent =
    DAMAGE_TAKEN int int int bool
  | LEVEL_UP int int
  | ENEMY_KILLED int int
  | PLAYER_DIED int

text \<open>
  The state the combat system works on: \<open>EntityManager.entities\<close>, a dict in insertion
  order, as an association list; the queue of the global event bus; and the number of
  values drawn so far from \<open>random.random()\<close>. The values themselves are a parameter
  \<open>rnd\<close> of the functions that draw: \<open>rnd n\<close> is the \<open>n\<close>-th value.
\<close>

record world =
  entities :: "(int \<times> Entity) list"
  queue :: "GameEvent list"
  rolls_used :: nat

definition get_entity :: "world \<Rightarrow> int \<Rightarrow> Entity option" where
  "get_entity w entity_id = map_of (entities w) entity_id"

definition remove_entity :: "world \<Rightarrow> int \<Rightarrow> world" where
  "remove_entity w entity_id = w\<lparr>entities := filter (\<lambda>(k, e). k \<noteq> entity_id) (entities w)\<rparr>"

text \<open>A component of an entity is changed in place: the entity keeps its place in the dict.\<close>

definition update_entity :: "world \<Rightarrow> int \<Rightarrow> (Entity \<Rightarrow> Entity) \<Rightarrow> world" where
  "update_entity w entity_id f =
     w\<lparr>entities := map (\<lambda>(k, e). if k = entity_id then (k, f e) else (k, e)) (entities w)\<rparr>"

definition emit :: "world \<Rightarrow> GameEvent \<Rightarrow> world" where
  "emit w ev = w\<lparr>queue := queue w @ [ev]\<rparr>"

definition random_random :: "(nat \<Rightarrow> real) \<Rightarrow> world \<Rightarrow> real \<times> world" where
  "random_random rnd w = (rnd (rolls_used w), w\<lparr>rolls_used := Suc (rolls_used w)\<rparr>)"

section \<open>Combat (game/ecs/systems.py, CombatSystem)\<close>

text \<open>
  \<open>handle_death\<close> as \<open>apply_damage\<close>, its only caller, calls it: \<open>puddle_system\<close> and
  \<open>enemy_ai\<close> are \<open>None\<close>, so the slime branch does nothing. \<open>None\<close> is the level-up loop
  of the killer not returning.
\<close>

definition grant_xp :: "world \<Rightarrow> Entity \<Rightarrow> int \<Rightarrow> Entity \<Rightarrow> world option" where
  "grant_xp w entity killer_id killer =
     (case experience entity of
        None \<Rightarrow> Some w
      | Some ex \<Rightarrow>
          let base_xp = 10;
              enemy_level = level ex;
              xp_amount = py_int (base_xp * (1 + of_int enemy_level * 0.1));
              xp_amount = (if map_option tag (faction entity) = Some BOSS
                           then xp_amount * 3 else xp_amount)
          in (case experience killer of
                None \<Rightarrow> Some w
              | Some killer_exp \<Rightarrow>
                  (case add_xp killer_exp xp_amount of
                     None \<Rightarrow> None
                   | Some (killer_exp', leveled_up) \<Rightarrow>
                       let w1 = update_entity w killer_id
                                  (\<lambda>e. e\<lparr>experience := Some killer_exp'\<rparr>)
                       in Some (if leveled_up
                                then emit w1 (LEVEL_UP killer_id (level killer_exp'))
                                else w1))))"

definition handle_death :: "world \<Rightarrow> int \<Rightarrow> int \<Rightarrow> world option" where
  "handle_death w entity_id killer_id =
     (case get_entity w entity_id of
        None \<Rightarrow> Some w
      | Some entity \<Rightarrow>
     (case get_entity w killer_id of
        None \<Rightarrow> Some w
      | Some killer \<Rightarrow>
     (case faction entity of
        None \<Rightarrow> Some w
      | Some f \<Rightarrow>
     (case faction killer of
        None \<Rightarrow> Some w
      | Some killer_faction \<Rightarrow>
          if tag f = PLAYER then Some (emit w (PLAYER_DIED entity_id))
          else if tag f = ENEMY \<or> tag f = BOSS then
            (case grant_xp w entity killer_id killer of
               None \<Rightarrow> None
             | Some w1 \<Rightarrow>
                 Some (remove_entity (emit w1 (ENEMY_KILLED entity_id killer_id)) entity_id))
          else Some w))))"

definition apply_damage ::
  "(nat \<Rightarrow> real) \<Rightarrow> world \<Rightarrow> int \<Rightarrow> int \<Rightarrow> int \<Rightarrow> bool \<Rightarrow> (world \<times> int) option"
where
  "apply_damage rnd w target_id dmg attacker_id is_crit =
     (case get_entity w target_id of
        None \<Rightarrow> Some (w, 0)
      | Some target \<Rightarrow>
     (case health target of
        None \<Rightarrow> Some (w, 0)
      | Some h \<Rightarrow>
          let rolled = (map_option tag (faction target) = Some ENEMY);
              (roll, w0) = (if rolled then random_random rnd w else (1, w))
          in if rolled \<and> roll < 0.1 then Some (w0, 0)
             else
               let (h', actual_damage) = take_damage h dmg;
                   w1 = update_entity w0 target_id (\<lambda>e. e\<lparr>health := Some h'\<rparr>)
               in if actual_damage > 0 then
                    let w2 = emit w1 (DAMAGE_TAKEN target_id actual_damage attacker_id is_crit)
                    in if \<not> is_alive h'
                       then map_option (\<lambda>w3. (w3, actual_damage))
                              (handle_death w2 target_id attacker_id)
                       else Some (w2, actual_damage)
                  else Some (w1, actual_damage)))"

text \<open>
  How \<open>perform_attack\<close> ends: it returns its hit list; or the \<open>for\<close> loop over
  \<open>entities.items()\<close> raises \<open>RuntimeError\<close> (dictionary changed size during iteration),
  which the iterator does at its next step once an entity has been removed; or a
  level-up loop does not return. The state at that moment is kept in the first two.
\<close>

datatype attack_result = Return world "int list" | RuntimeError world | NoReturn

text \<open>
  The loop of \<open>perform_attack\<close> over the keys of the dict as they were when it started;
  \<open>n\<close> is the size of the dict then. Each entity is read from the current state. (A key
  that is gone while the size is the same cannot be: the loop only removes.)
\<close>

fun attack_loop ::
  "(nat \<Rightarrow> real) \<Rightarrow> int \<Rightarrow> real \<times> real \<Rightarrow> Weapon \<Rightarrow> Damage \<Rightarrow> Faction \<Rightarrow> real \<Rightarrow> nat
     \<Rightarrow> int list \<Rightarrow> world \<Rightarrow> int list \<Rightarrow> attack_result"
where
  "attack_loop rnd attacker_id target_pos wp damage_comp attacker_faction range_sq n [] w hit_entities =
     (if length (entities w) \<noteq> n then RuntimeError w else Return w hit_entities)"
| "attack_loop rnd attacker_id target_pos wp damage_comp attacker_faction range_sq n
     (entity_id # rest) w hit_entities =
     (if length (entities w) \<noteq> n then RuntimeError w
      else if entity_id = attacker_id
      then attack_loop rnd attacker_id target_pos wp damage_comp attacker_faction range_sq n
             rest w hit_entities
      else
        (case get_entity w entity_id of
           None \<Rightarrow> attack_loop rnd attacker_id target_pos wp damage_comp attacker_faction
                     range_sq n rest w hit_entities
         | Some entity \<Rightarrow>
             if faction entity = None \<or> transform entity = None \<or> health entity = None
                \<or> \<not> is_enemy_of attacker_faction (the (faction entity))
             then attack_loop rnd attacker_id target_pos wp damage_comp attacker_faction
                    range_sq n rest w hit_entities
             else
               let dx = pos_x (the (transform entity)) - fst target_pos;
                   dy = pos_y (the (transform entity)) - snd target_pos;
                   dist_sq = dx * dx + dy * dy
               in if dist_sq \<le> range_sq then
                    let (roll, w1) = random_random rnd w;
                        (dmg, is_crit) = calculate_damage damage_comp None roll
                    in (case apply_damage rnd w1 entity_id dmg attacker_id is_crit of
                          None \<Rightarrow> NoReturn
                        | Some (w2, actual_damage) \<Rightarrow>
                            let hit_entities' =
                                  (if actual_damage > 0 then hit_entities @ [entity_id]
                                   else hit_entities)
                            in if penetration wp > 0
                                  \<and> int (length hit_entities') \<ge> penetration wp + 1
                               then Return w2 hit_entities'
                               else attack_loop rnd attacker_id target_pos wp damage_comp
                                      attacker_faction range_sq n rest w2 hit_entities')
                  else attack_loop rnd attacker_id target_pos wp damage_comp attacker_faction
                         range_sq n rest w hit_entities))"

definition perform_attack ::
  "(nat \<Rightarrow> real) \<Rightarrow> world \<Rightarrow> int \<Rightarrow> real \<times> real \<Rightarrow> real \<Rightarrow> attack_result"
where
  "perform_attack rnd w attacker_id target_pos current_time =
     (case get_entity w attacker_id of
        None \<Rightarrow> Return w []
      | Some attacker \<Rightarrow>
          if weapon attacker = None \<or> damage attacker = None \<or> faction attacker = None
             \<or> transform attacker = None
          then Return w []
          else if \<not> can_attack (the (weapon attacker)) current_time then Return w []
          else
            let wp = (the (weapon attacker))\<lparr>last_attack_time := current_time\<rparr>;
                w1 = update_entity w attacker_id (\<lambda>e. e\<lparr>weapon := Some wp\<rparr>);
                range_sq = (get_effective_range wp)\<^sup>2
            in attack_loop rnd attacker_id target_pos wp (the (damage attacker))
                 (the (faction attacker)) range_sq (length (entities w1))
                 (map fst (entities w1)) w1 [])"



text \<open>Two entities that differ at most in their Experience component.\<close>

definition same_but_xp :: "Entity \<Rightarrow> Entity \<Rightarrow> bool" where
  "same_but_xp e e' \<longleftrightarrow> e' = e\<lparr>experience := experience e'\<rparr>"

definition xp_kept :: "world \<Rightarrow> world \<Rightarrow> int \<Rightarrow> bool" where
  "xp_kept w w' a \<longleftrightarrow> rel_option same_but_xp (get_entity w a) (get_entity w' a)"

text \<open>The Experience of entity \<open>a\<close>, if it has one, needs at least one point for the next level.\<close>

definition xp_sane :: "world \<Rightarrow> int \<Rightarrow> bool" where
  "xp_sane w a \<longleftrightarrow> (\<forall>e ex. get_entity w a = Some e \<and> experience e = Some ex \<longrightarrow> 1 \<le> next_xp ex)"

section \<open>Hitboxes (game/gameplay/hitboxes.py)\<close>

text \<open>\<open>math.atan2 y x\<close> on reals (no signed zeros), with values in \<open>(-pi, pi]\<close>.\<close>

definition atan2 :: "real \<Rightarrow> real \<Rightarrow> real" where
  "atan2 y x =
     (if 0 < x then arctan (y / x)
      else if x < 0 \<and> 0 \<le> y then arctan (y / x) + pi
      else if x < 0 \<and> y < 0 then arctan (y / x) - pi
      else if 0 < y then pi / 2
      else if y < 0 then - pi / 2
      else 0)"

text \<open>The two loops that bring an angle difference back into \<open>[-pi, pi]\<close>.\<close>

function wrap_down :: "real \<Rightarrow> real" where
  "wrap_down angle_diff = (if angle_diff > pi then wrap_down (angle_diff - 2 * pi) else angle_diff)"
  by pat_completeness auto

lemma wrap_down_measure:
  assumes "pi < (a::real)"
  shows "nat \<lceil>(a - 2 * pi) / (2 * pi)\<rceil> < nat \<lceil>a / (2 * pi)\<rceil>"
proof -
  have "(a - 2 * pi) / (2 * pi) = a / (2 * pi) - 1"
    by (simp add: diff_divide_distrib)
  then have "\<lceil>(a - 2 * pi) / (2 * pi)\<rceil> = \<lceil>a / (2 * pi)\<rceil> - 1"
    by simp
  moreover have "0 < a / (2 * pi)"
    using assms pi_gt_zero by (intro divide_pos_pos) linarith+
  then have "0 < \<lceil>a / (2 * pi)\<rceil>"
    by (simp add: less_ceiling_iff)
  ultimately show ?thesis by linarith
qed

termination wrap_down
proof (relation "measure (\<lambda>a. nat \<lceil>a / (2 * pi)\<rceil>)")
  show "wf (measure (\<lambda>a. nat \<lceil>a / (2 * pi)\<rceil>))"
    by (rule wf_measure)
next
  fix angle_diff :: real
  assume "pi < angle_diff"
  then show "(angle_diff - 2 * pi, angle_diff) \<in> measure (\<lambda>a. nat \<lceil>a / (2 * pi)\<rceil>)"
    unfolding in_measure by (rule wrap_down_measure)
qed

function wrap_up :: "real \<Rightarrow> real" where
  "wrap_up angle_diff = (if angle_diff < - pi then wrap_up (angle_diff + 2 * pi) else angle_diff)"
  by pat_completeness auto

lemma wrap_up_measure:
  assumes "(a::real) < - pi"
  shows "nat \<lceil>- (a + 2 * pi) / (2 * pi)\<rceil> < nat \<lceil>- a / (2 * pi)\<rceil>"
proof -
  have "- (a + 2 * pi) / (2 * pi) = - a / (2 * pi) - 1"
    by (simp add: diff_divide_distrib)
  then have "\<lceil>- (a + 2 * pi) / (2 * pi)\<rceil> = \<lceil>- a / (2 * pi)\<rceil> - 1"
    by simp
  moreover have "0 < - a / (2 * pi)"
    using assms pi_gt_zero by (intro divide_pos_pos) linarith+
  then have "0 < \<lceil>- a / (2 * pi)\<rceil>"
    by (simp add: less_ceiling_iff)
  ultimately show ?thesis by linarith
qed

termination wrap_up
proof (relation "measure (\<lambda>a. nat \<lceil>- a / (2 * pi)\<rceil>)")
  show "wf (measure (\<lambda>a. nat \<lceil>- a / (2 * pi)\<rceil>))"
    by (rule wf_measure)
next
  fix angle_diff :: real
  assume "angle_diff < - pi"
  then show "(angle_diff + 2 * pi, angle_diff) \<in> measure (\<lambda>a. nat \<lceil>- a / (2 * pi)\<rceil>)"
    unfolding in_measure by (rule wrap_up_measure)
qed

declare wrap_down.simps [simp del] wrap_up.simps [simp del]

text \<open>
  The two dataclasses \<open>ArcHitbox\<close> and \<open>LineHitbox\<close>, with their fields in order; the fields
  \<open>start\<close>, \<open>end\<close> and \<open>width\<close> of \<open>LineHitbox\<close> are \<open>line_start\<close>, \<open>line_end\<close> and
  \<open>line_width\<close>. Two hitboxes are equal (\<open>==\<close>) when they are of the same class with equal
  fields.
\<close>

datatype Hitbox =
    ArcHitbox (center: "real \<times> real") (radius: real) (start_angle: real) (arc_angle: real)
      (start_frame: int) (end_frame: int) (current_frame: int)
  | LineHitbox (line_start: "real \<times> real") (line_end: "real \<times> real") (line_width: real)
      (start_frame: int) (end_frame: int) (current_frame: int)

fun set_current_frame :: "int \<Rightarrow> Hitbox \<Rightarrow> Hitbox" where
  "set_current_frame n (ArcHitbox c r sa aa sf ef cf) = ArcHitbox c r sa aa sf ef n"
| "set_current_frame n (LineHitbox s e wd sf ef cf) = LineHitbox s e wd sf ef n"

fun check_point :: "Hitbox \<Rightarrow> real \<times> real \<Rightarrow> bool" where
  "check_point (ArcHitbox c r sa aa sf ef cf) point =
     (let dx = fst point - fst c;
          dy = snd point - snd c;
          distance = sqrt (dx * dx + dy * dy)
      in if distance > r then False
         else if distance = 0 then True
         else
           let angle = atan2 dy dx;
               angle_diff = angle - sa;
               angle_diff = wrap_down angle_diff;
               angle_diff = wrap_up angle_diff
           in \<bar>angle_diff\<bar> \<le> aa / 2)"
| "check_point (LineHitbox s e wd sf ef cf) point =
     (let line_dx = fst e - fst s;
          line_dy = snd e - snd s;
          line_length = sqrt (line_dx * line_dx + line_dy * line_dy)
      in if line_length = 0 then False
         else
           let point_dx = fst point - fst s;
               point_dy = snd point - snd s;
               t = (point_dx * line_dx + point_dy * line_dy) / (line_length * line_length)
           in if t < 0 \<or> t > 1 then False
              else
                let closest_x = fst s + t * line_dx;
                    closest_y = snd s + t * line_dy;
                    dist_dx = fst point - closest_x;
                    dist_dy = snd point - closest_y;
                    distance = sqrt (dist_dx * dist_dx + dist_dy * dist_dy)
                in distance \<le> wd / 2)"

text \<open>\<open>check_entity\<close>: the centre point of the entity, then the four corners of its collider.\<close>

definition check_entity :: "Hitbox \<Rightarrow> Transform \<Rightarrow> Collider \<Rightarrow> bool" where
  "check_entity h entity_transform entity_collider =
     (if check_point h (pos_x entity_transform, pos_y entity_transform) then True
      else
        let rect = get_rect entity_collider entity_transform;
            corners = [(rect_left rect, rect_top rect), (rect_right rect, rect_top rect),
                       (rect_right rect, rect_bottom rect), (rect_left rect, rect_bottom rect)]
        in list_ex (\<lambda>corner. check_point h (of_int (fst corner), of_int (snd corner))) corners)"

definition is_active :: "Hitbox \<Rightarrow> bool" where
  "is_active h \<longleftrightarrow> start_frame h \<le> current_frame h \<and> current_frame h \<le> end_frame h"

subsection \<open>HitboxManager\<close>

record HitboxManager =
  active_hitboxes :: "Hitbox list"
  frame_counter :: int

definition new_manager :: HitboxManager where
  "new_manager = \<lparr>active_hitboxes = [], frame_counter = 0\<rparr>"

definition add_arc_hitbox ::
  "HitboxManager \<Rightarrow> real \<times> real \<Rightarrow> real \<Rightarrow> real \<Rightarrow> real \<Rightarrow> int \<Rightarrow> int \<Rightarrow> HitboxManager \<times> Hitbox"
where
  "add_arc_hitbox m c r sa aa sf ef =
     (let hitbox = ArcHitbox c r sa aa sf ef 0
      in (m\<lparr>active_hitboxes := active_hitboxes m @ [hitbox]\<rparr>, hitbox))"

definition add_line_hitbox ::
  "HitboxManager \<Rightarrow> real \<times> real \<Rightarrow> real \<times> real \<Rightarrow> real \<Rightarrow> int \<Rightarrow> int \<Rightarrow> HitboxManager \<times> Hitbox"
where
  "add_line_hitbox m s e wd sf ef =
     (let hitbox = LineHitbox s e wd sf ef 0
      in (m\<lparr>active_hitboxes := active_hitboxes m @ [hitbox]\<rparr>, hitbox))"

definition clear :: "HitboxManager \<Rightarrow> HitboxManager" where
  "clear m = m\<lparr>active_hitboxes := [], frame_counter := 0\<rparr>"

text \<open>
  \<open>list.remove(x)\<close> drops the first element equal to \<open>x\<close> and raises \<open>ValueError\<close> (\<open>None\<close>)
  when there is none.
\<close>

definition py_remove :: "'a \<Rightarrow> 'a list \<Rightarrow> 'a list option" where
  "py_remove v xs = (if v \<in> set xs then Some (remove1 v xs) else None)"

fun remove_all :: "'a list \<Rightarrow> 'a list \<Rightarrow> 'a list option" where
  "remove_all [] xs = Some xs"
| "remove_all (v # vs) xs =
     (case py_remove v xs of None \<Rightarrow> None | Some xs' \<Rightarrow> remove_all vs xs')"

text \<open>
  \<open>HitboxManager.update\<close>: the first loop stamps every hitbox with the new counter and
  collects the expired ones, the second removes them from the list one by one.
\<close>

definition update :: "HitboxManager \<Rightarrow> HitboxManager option" where
  "update m =
     (let counter = frame_counter m + 1;
          stamped = map (set_current_frame counter) (active_hitboxes m);
          expired = filter (\<lambda>h. current_frame h > end_frame h) stamped
      in map_option (\<lambda>hs. \<lparr>active_hitboxes = hs, frame_counter = counter\<rparr>)
           (remove_all expired stamped))"

text \<open>
  \<open>check_hits\<close>: the inner loop over the entities for one hitbox, with the hit list so far,
  and the outer loop over the hitboxes.
\<close>

fun check_entities ::
  "Hitbox \<Rightarrow> int \<Rightarrow> int list \<Rightarrow> (int \<times> Entity) list \<Rightarrow> int list \<Rightarrow> int list"
where
  "check_entities h attacker_id exclude_ids [] hit_entities = hit_entities"
| "check_entities h attacker_id exclude_ids ((entity_id, entity) # rest) hit_entities =
     (if entity_id = attacker_id \<or> entity_id \<in> set exclude_ids \<or> entity_id \<in> set hit_entities
      then check_entities h attacker_id exclude_ids rest hit_entities
      else if transform entity = None \<or> collider entity = None
      then check_entities h attacker_id exclude_ids rest hit_entities
      else if check_entity h (the (transform entity)) (the (collider entity))
      then check_entities h attacker_id exclude_ids rest (hit_entities @ [entity_id])
      else check_entities h attacker_id exclude_ids rest hit_entities)"

definition check_hitbox ::
  "Hitbox \<Rightarrow> int \<Rightarrow> int list \<Rightarrow> (int \<times> Entity) list \<Rightarrow> int list \<Rightarrow> int list"
where
  "check_hitbox h attacker_id exclude_ids ents hit_entities =
     (if \<not> is_active h then hit_entities
      else check_entities h attacker_id exclude_ids ents hit_entities)"

definition check_hits :: "HitboxManager \<Rightarrow> int \<Rightarrow> world \<Rightarrow> int list option \<Rightarrow> int list" where
  "check_hits m attacker_id w exclude_ids =
     fold (\<lambda>h hit_entities.
             check_hitbox h attacker_id (case exclude_ids of None \<Rightarrow> [] | Some ids \<Rightarrow> ids)
               (entities w) hit_entities)
       (active_hitboxes m) []"

text \<open>
  The states a manager can be in: the counter is not negative, and every listed hitbox
  carries the counter of the last \<open>update\<close>, or \<open>0\<close> when it was added after it.
\<close>

definition synced :: "HitboxManager \<Rightarrow> bool" where
  "synced m \<longleftrightarrow>
     0 \<le> frame_counter m
     \<and> (\<forall>h \<in> set (active_hitboxes m). current_frame h = 0 \<or> current_frame h = frame_counter m)"

section \<open>Attack frames (game/gameplay/combat.py, WeaponAttackSystem)\<close>

text \<open>
  The part of \<open>WeaponAttackSystem\<close> that \<open>update_attack_frames\<close> works on: the entity
  store with the event queue and the random source, the hitbox manager, and the dict
  \<open>attack_frames\<close>. The calls on \<open>effects_system\<close> (damage numbers, particles, camera
  shake) only draw and are left out.
\<close>

record WeaponAttackSystem =
  game :: world
  hitbox_manager :: HitboxManager
  attack_frames :: "(int \<times> int) list"

datatype tick_result = Ticked WeaponAttackSystem | TickValueError | TickNoReturn

text \<open>The loop \<open>for entity_id in hit_entities\<close>; \<open>None\<close> when a level-up loop does not return.\<close>

fun apply_hits :: "(nat \<Rightarrow> real) \<Rightarrow> Damage \<Rightarrow> int \<Rightarrow> int list \<Rightarrow> world \<Rightarrow> world option" where
  "apply_hits rnd damage_comp attacker_id [] w = Some w"
| "apply_hits rnd damage_comp attacker_id (entity_id # rest) w =
     (let (roll, w1) = random_random rnd w;
          (dmg, is_crit) = calculate_damage damage_comp None roll
      in case apply_damage rnd w1 entity_id dmg attacker_id is_crit of
           None \<Rightarrow> None
         | Some (w2, actual_damage) \<Rightarrow> apply_hits rnd damage_comp attacker_id rest w2)"

text \<open>The loop over \<open>list(self.attack_frames.keys())\<close>.\<close>

fun frames_loop :: "(nat \<Rightarrow> real) \<Rightarrow> int list \<Rightarrow> WeaponAttackSystem \<Rightarrow> WeaponAttackSystem option" where
  "frames_loop rnd [] s = Some s"
| "frames_loop rnd (attacker_id # rest) s =
     (let s1 = s\<lparr>attack_frames :=
                   map (\<lambda>(k, v). if k = attacker_id then (k, v + 1) else (k, v)) (attack_frames s)\<rparr>;
          dropped = s1\<lparr>attack_frames := filter (\<lambda>(k, v). k \<noteq> attacker_id) (attack_frames s1)\<rparr>
      in case get_entity (game s1) attacker_id of
           None \<Rightarrow> frames_loop rnd rest dropped
         | Some attacker \<Rightarrow>
             if weapon attacker = None \<or> damage attacker = None
             then frames_loop rnd rest dropped
             else
               let hit_entities = check_hits (hitbox_manager s1) attacker_id (game s1) None
               in case apply_hits rnd (the (damage attacker)) attacker_id hit_entities (game s1) of
                    None \<Rightarrow> None
                  | Some w' \<Rightarrow> frames_loop rnd rest (s1\<lparr>game := w'\<rparr>))"

definition update_attack_frames :: "(nat \<Rightarrow> real) \<Rightarrow> WeaponAttackSystem \<Rightarrow> tick_result" where
  "update_attack_frames rnd s =
     (case update (hitbox_manager s) of
        None \<Rightarrow> TickValueError
      | Some m \<Rightarrow>
          (case frames_loop rnd (map fst (attack_frames s)) (s\<lparr>hitbox_manager := m\<rparr>) of
             None \<Rightarrow> TickNoReturn
           | Some s' \<Rightarrow> Ticked s'))"

section \<open>The level (game/world/tiles.py, game/world/level.py)\<close>

datatype TileType = FLOOR | WALL | DOOR | STAIRS_DOWN | STAIRS_UP

record Tile =
  tile_type :: TileType
  walkable :: bool
  blocks_sight :: bool

text \<open>
  \<open>Level.tiles\<close> is a list of \<open>height\<close> rows of \<open>width\<close> tiles each, as \<open>Level.__init__\<close>
  builds it and \<open>set_tile\<close> keeps it; \<open>tiles[y][x]\<close> is read only inside these bounds.
\<close>

record Level =
  level_width :: int
  level_height :: int
  tiles :: "Tile list list"

definition get_tile :: "Level \<Rightarrow> int \<Rightarrow> int \<Rightarrow> Tile option" where
  "get_tile lv tx ty =
     (if 0 \<le> tx \<and> tx < level_width lv \<and> 0 \<le> ty \<and> ty < level_height lv
      then Some (tiles lv ! nat ty ! nat tx)
      else None)"

definition is_walkable :: "Level \<Rightarrow> int \<Rightarrow> int \<Rightarrow> bool" where
  "is_walkable lv tx ty = (case get_tile lv tx ty of Some tile \<Rightarrow> walkable tile | None \<Rightarrow> False)"

section \<open>The heap of the standard library (heapq)\<close>

text \<open>
  A* keeps its open set in a list through \<open>heapq.heappush\<close> and \<open>heapq.heappop\<close>. These
  are the functions of the standard library, comparing nodes with \<open>Node.__lt__\<close>; the
  list is passed and returned instead of changed in place.
\<close>

text \<open>The fields \<open>x\<close>, \<open>y\<close>, \<open>g\<close>, \<open>h\<close> and the property \<open>f\<close> of \<open>Node\<close> are \<open>node_x\<close>, \<open>node_y\<close>, \<open>g_cost\<close>, \<open>h_cost\<close>, \<open>f_cost\<close>.\<close>

datatype Node =
  Node (node_x: int) (node_y: int) (g_cost: real) (h_cost: real) (parent: "Node option")

definition f_cost :: "Node \<Rightarrow> real" where
  "f_cost n = g_cost n + h_cost n"

definition node_lt :: "Node \<Rightarrow> Node \<Rightarrow> bool" where
  "node_lt self other \<longleftrightarrow> f_cost self < f_cost other"

function siftdown_loop :: "Node list \<Rightarrow> nat \<Rightarrow> nat \<Rightarrow> Node \<Rightarrow> Node list" where
  "siftdown_loop heap startpos pos newitem =
     (if pos > startpos then
        let parentpos = (pos - 1) div 2;
            parent = heap ! parentpos
        in if node_lt newitem parent
           then siftdown_loop (heap[pos := parent]) startpos parentpos newitem
           else heap[pos := newitem]
      else heap[pos := newitem])"
  by pat_completeness auto

termination siftdown_loop
  by (relation "measure (\<lambda>(heap, startpos, pos, newitem). pos)") auto

definition siftdown :: "Node list \<Rightarrow> nat \<Rightarrow> nat \<Rightarrow> Node list" where
  "siftdown heap startpos pos = siftdown_loop heap startpos pos (heap ! pos)"

function siftup_loop :: "Node list \<Rightarrow> nat \<Rightarrow> Node list \<times> nat" where
  "siftup_loop heap pos =
     (let endpos = length heap;
          childpos = 2 * pos + 1
      in if childpos < endpos then
           let rightpos = childpos + 1;
               childpos = (if rightpos < endpos \<and> \<not> node_lt (heap ! childpos) (heap ! rightpos)
                           then rightpos else childpos)
           in siftup_loop (heap[pos := heap ! childpos]) childpos
         else (heap, pos))"
  by pat_completeness auto

termination siftup_loop
  by (relation "measure (\<lambda>(heap, pos). length heap - pos)") auto

definition siftup :: "Node list \<Rightarrow> nat \<Rightarrow> Node list" where
  "siftup heap pos =
     (let startpos = pos;
          newitem = heap ! pos;
          (heap1, pos1) = siftup_loop heap pos
      in siftdown (heap1[pos1 := newitem]) startpos pos1)"

definition heappush :: "Node list \<Rightarrow> Node \<Rightarrow> Node list" where
  "heappush heap item = siftdown (heap @ [item]) 0 (length heap)"

text \<open>\<open>heappop\<close> of the empty list raises \<open>IndexError\<close>: \<open>None\<close>.\<close>

definition heappop :: "Node list \<Rightarrow> (Node \<times> Node list) option" where
  "heappop heap =
     (if heap = [] then None
      else
        let lastelt = last heap;
            heap1 = butlast heap
        in if heap1 \<noteq> [] then
             let returnitem = heap1 ! 0;
                 heap2 = heap1[0 := lastelt]
             in Some (returnitem, siftup heap2 0)
           else Some (lastelt, heap1))"

declare siftdown_loop.simps [simp del] siftup_loop.simps [simp del]

section \<open>Pathfinding (game/gameplay/pathfinding.py)\<close>

text \<open>The fields \<open>level\<close> and \<open>tile_size\<close> of \<open>Pathfinder\<close> are \<open>path_level\<close> and \<open>tile_size\<close>.\<close>

record Pathfinder =
  path_level :: Level
  tile_size :: int

definition heuristic :: "int \<Rightarrow> int \<Rightarrow> int \<Rightarrow> int \<Rightarrow> real" where
  "heuristic x1 y1 x2 y2 = of_int (\<bar>x1 - x2\<bar> + \<bar>y1 - y2\<bar>)"

definition directions :: "(int \<times> int) list" where
  "directions = [(0, 1), (1, 0), (0, -1), (-1, 0), (1, 1), (-1, 1), (1, -1), (-1, -1)]"

definition get_neighbors :: "Level \<Rightarrow> int \<Rightarrow> int \<Rightarrow> (int \<times> int) list" where
  "get_neighbors lv tx ty =
     filter (\<lambda>(nx, ny). is_walkable lv nx ny) (map (\<lambda>(dx, dy). (tx + dx, ty + dy)) directions)"

text \<open>
  \<open>_find_nearest_walkable\<close>: the offsets \<open>(dx, dy)\<close> of one radius in the order of the two
  inner loops, and the loop over the radii, which returns at the first walkable tile.
\<close>

definition ring_offsets :: "int \<Rightarrow> (int \<times> int) list" where
  "ring_offsets rad =
     concat (map (\<lambda>dx. concat (map (\<lambda>dy. if \<bar>dx\<bar> + \<bar>dy\<bar> = rad then [(dx, dy)] else [])
                                  [- rad..rad]))
                 [- rad..rad])"

fun search_rings :: "Level \<Rightarrow> int \<Rightarrow> int \<Rightarrow> int list \<Rightarrow> (int \<times> int) option" where
  "search_rings lv tx ty [] = None"
| "search_rings lv tx ty (rad # radii) =
     (case find (\<lambda>(dx, dy). is_walkable lv (tx + dx) (ty + dy)) (ring_offsets rad) of
        Some (dx, dy) \<Rightarrow> Some (tx + dx, ty + dy)
      | None \<Rightarrow> search_rings lv tx ty radii)"

definition find_nearest_walkable :: "Level \<Rightarrow> int \<Rightarrow> int \<Rightarrow> int \<Rightarrow> int \<times> int" where
  "find_nearest_walkable lv tx ty max_radius =
     (case search_rings lv tx ty [1..max_radius] of
        Some tile \<Rightarrow> tile
      | None \<Rightarrow> (tx, ty))"

text \<open>The loop over the neighbours of \<open>current\<close>, pushing the ones that are not closed.\<close>

fun push_neighbors ::
  "int \<Rightarrow> int \<Rightarrow> Node \<Rightarrow> (int \<times> int) set \<Rightarrow> (int \<times> int) list \<Rightarrow> Node list \<Rightarrow> Node list"
where
  "push_neighbors goal_x goal_y current closed_set [] open_set = open_set"
| "push_neighbors goal_x goal_y current closed_set ((nx, ny) # rest) open_set =
     (if (nx, ny) \<in> closed_set
      then push_neighbors goal_x goal_y current closed_set rest open_set
      else
        let is_diagonal = (\<bar>nx - node_x current\<bar> + \<bar>ny - node_y current\<bar> = 2);
            cost = (if is_diagonal then 1.414 else 1.0);
            neighbor = Node nx ny (g_cost current + cost) (heuristic nx ny goal_x goal_y) (Some current)
        in push_neighbors goal_x goal_y current closed_set rest (heappush open_set neighbor))"

text \<open>Facts about the heap that the termination of the search rests on.\<close>

lemma length_siftdown_loop [simp]:
  "length (siftdown_loop heap startpos pos newitem) = length heap"
  by (induction heap startpos pos newitem rule: siftdown_loop.induct)
     (subst siftdown_loop.simps, simp add: Let_def)

lemma set_siftdown_loop:
  "pos < length heap \<Longrightarrow> set (siftdown_loop heap startpos pos newitem) \<subseteq> insert newitem (set heap)"
proof (induction heap startpos pos newitem rule: siftdown_loop.induct)
  case (1 heap startpos pos newitem)
  show ?case
  proof (cases "pos > startpos \<and> node_lt newitem (heap ! ((pos - 1) div 2))")
    case True
    have p: "(pos - 1) div 2 < length heap" using "1.prems" by simp
    have "set (siftdown_loop (heap[pos := heap ! ((pos - 1) div 2)]) startpos ((pos - 1) div 2) newitem)
            \<subseteq> insert newitem (set (heap[pos := heap ! ((pos - 1) div 2)]))"
      using True p by (intro "1.IH") simp_all
    also have "set (heap[pos := heap ! ((pos - 1) div 2)]) \<subseteq> set heap"
      using p set_update_subset_insert [of heap pos "heap ! ((pos - 1) div 2)"] by auto
    finally show ?thesis
      using True by (subst siftdown_loop.simps) (auto simp: Let_def)
  next
    case False
    then have "siftdown_loop heap startpos pos newitem = heap[pos := newitem]"
      by (subst siftdown_loop.simps) (auto simp: Let_def)
    then show ?thesis using set_update_subset_insert [of heap pos newitem] by simp
  qed
qed

lemma siftup_loop_facts:
  "siftup_loop heap pos = (heap1, pos1) \<Longrightarrow>
     length heap1 = length heap \<and> set heap1 \<subseteq> set heap \<and> (pos < length heap \<longrightarrow> pos1 < length heap)"
proof (induction heap pos arbitrary: heap1 pos1 rule: siftup_loop.induct)
  case (1 heap pos)
  show ?case
  proof (cases "2 * pos + 1 < length heap")
    case False
    then have "siftup_loop heap pos = (heap, pos)"
      by (subst siftup_loop.simps) (simp add: Let_def)
    then show ?thesis using "1.prems" by simp
  next
    case True
    define c where "c = (if 2 * pos + 1 + 1 < length heap
                            \<and> \<not> node_lt (heap ! (2 * pos + 1)) (heap ! (2 * pos + 1 + 1))
                         then 2 * pos + 1 + 1 else 2 * pos + 1)"
    have c: "c < length heap" using True by (simp add: c_def)
    have eq: "siftup_loop heap pos = siftup_loop (heap[pos := heap ! c]) c"
      using True by (subst siftup_loop.simps) (simp add: Let_def c_def)
    then have "siftup_loop (heap[pos := heap ! c]) c = (heap1, pos1)"
      using "1.prems" by simp
    from "1.IH" [OF refl refl True refl c_def [symmetric, THEN sym] this]
    have "length heap1 = length (heap[pos := heap ! c])"
      and "set heap1 \<subseteq> set (heap[pos := heap ! c])"
      and "c < length (heap[pos := heap ! c]) \<longrightarrow> pos1 < length (heap[pos := heap ! c])"
      by simp_all
    moreover have "set (heap[pos := heap ! c]) \<subseteq> set heap"
      using c set_update_subset_insert [of heap pos "heap ! c"] by auto
    ultimately show ?thesis using c by auto
  qed
qed


lemma siftdown_facts:
  "pos < length heap \<Longrightarrow>
     length (siftdown heap startpos pos) = length heap \<and> set (siftdown heap startpos pos) \<subseteq> set heap"
  using set_siftdown_loop [of pos heap startpos "heap ! pos"] by (auto simp: siftdown_def)

lemma siftup_facts:
  assumes "pos < length heap"
  shows "length (siftup heap pos) = length heap \<and> set (siftup heap pos) \<subseteq> set heap"
proof -
  obtain heap1 pos1 where l: "siftup_loop heap pos = (heap1, pos1)"
    by (cases "siftup_loop heap pos")
  from siftup_loop_facts [OF l] assms
  have h1: "length heap1 = length heap" "set heap1 \<subseteq> set heap" "pos1 < length heap"
    by simp_all
  let ?h2 = "heap1[pos1 := heap ! pos]"
  have "set ?h2 \<subseteq> insert (heap ! pos) (set heap1)"
    by (rule set_update_subset_insert)
  then have s2: "set ?h2 \<subseteq> set heap" using h1(2) assms by auto
  have "pos1 < length ?h2" using h1 by simp
  from siftdown_facts [OF this, of pos] s2 h1(1)
  have "length (siftdown ?h2 pos pos1) = length heap \<and> set (siftdown ?h2 pos pos1) \<subseteq> set heap"
    by auto
  then show ?thesis by (simp add: siftup_def Let_def l)
qed

lemma heappush_facts:
  "length (heappush heap item) = Suc (length heap)
   \<and> set (heappush heap item) \<subseteq> insert item (set heap)"
  using siftdown_facts [of "length heap" "heap @ [item]" 0] by (auto simp: heappush_def)

lemma heappop_facts:
  assumes "heappop heap = Some (item, heap')"
  shows "item \<in> set heap \<and> set heap' \<subseteq> set heap \<and> length heap' < length heap"
proof -
  have ne: "heap \<noteq> []" using assms by (auto simp: heappop_def)
  show ?thesis
  proof (cases "butlast heap = []")
    case True
    then have "item = last heap" "heap' = []"
      using assms ne by (auto simp: heappop_def Let_def)
    then show ?thesis using ne by simp
  next
    case False
    let ?h2 = "(butlast heap)[0 := last heap]"
    have r: "item = butlast heap ! 0" "heap' = siftup ?h2 0"
      using assms ne False by (auto simp: heappop_def Let_def)
    have sub: "set (butlast heap) \<subseteq> set heap" by (auto dest: in_set_butlastD)
    have "set ?h2 \<subseteq> insert (last heap) (set (butlast heap))"
      by (rule set_update_subset_insert)
    then have s2: "set ?h2 \<subseteq> set heap" using sub ne by auto
    have "0 < length ?h2" using False by (simp del: length_butlast)
    from siftup_facts [OF this] s2
    have "length heap' = length (butlast heap)" "set heap' \<subseteq> set heap"
      by (auto simp: r(2))
    moreover have "butlast heap ! 0 \<in> set (butlast heap)"
      using False by (intro nth_mem) (simp del: length_butlast)
    then have "item \<in> set heap" using r(1) sub by auto
    moreover have "length (butlast heap) < length heap"
      using ne by (simp add: length_greater_0_conv)
    ultimately show ?thesis by simp
  qed
qed

text \<open>The tiles of the open set, and the walkable tiles of a level.\<close>

definition tile_of :: "Node \<Rightarrow> int \<times> int" where
  "tile_of n = (node_x n, node_y n)"

definition walkable_tiles :: "Level \<Rightarrow> (int \<times> int) set" where
  "walkable_tiles lv = {(tx, ty). is_walkable lv tx ty}"

lemma finite_walkable_tiles: "finite (walkable_tiles lv)"
proof -
  have "walkable_tiles lv \<subseteq> {0..<level_width lv} \<times> {0..<level_height lv}"
    by (auto simp: walkable_tiles_def is_walkable_def get_tile_def split: if_splits)
  then show ?thesis by (rule finite_subset) simp
qed

lemma get_neighbors_walkable: "set (get_neighbors lv tx ty) \<subseteq> walkable_tiles lv"
  by (auto simp: get_neighbors_def walkable_tiles_def)

lemma push_neighbors_tiles:
  "tile_of ` set (push_neighbors goal_x goal_y current closed_set nbrs open_set)
     \<subseteq> tile_of ` set open_set \<union> set nbrs"
proof (induction nbrs arbitrary: open_set)
  case Nil
  then show ?case by simp
next
  case (Cons nb nbrs)
  obtain nx ny where nb: "nb = (nx, ny)" by (cases nb)
  show ?case
  proof (cases "(nx, ny) \<in> closed_set")
    case True
    then have "push_neighbors goal_x goal_y current closed_set (nb # nbrs) open_set
        = push_neighbors goal_x goal_y current closed_set nbrs open_set"
      by (simp add: nb)
    then show ?thesis using Cons.IH [of open_set] by auto
  next
    case False
    define neighbor where "neighbor = Node nx ny
        (g_cost current + (if \<bar>nx - node_x current\<bar> + \<bar>ny - node_y current\<bar> = 2 then 1.414 else 1.0))
        (heuristic nx ny goal_x goal_y) (Some current)"
    have t: "tile_of neighbor = (nx, ny)" by (simp add: neighbor_def tile_of_def)
    have "set (heappush open_set neighbor) \<subseteq> insert neighbor (set open_set)"
      using heappush_facts [of open_set neighbor] by simp
    then have "tile_of ` set (heappush open_set neighbor) \<subseteq> tile_of ` insert neighbor (set open_set)"
      by (rule image_mono)
    then have p: "tile_of ` set (heappush open_set neighbor) \<subseteq> insert nb (tile_of ` set open_set)"
      by (simp add: t nb)
    have step: "push_neighbors goal_x goal_y current closed_set (nb # nbrs) open_set
        = push_neighbors goal_x goal_y current closed_set nbrs (heappush open_set neighbor)"
      using False by (simp add: nb Let_def neighbor_def)
    have "tile_of ` set (push_neighbors goal_x goal_y current closed_set nbrs (heappush open_set neighbor))
        \<subseteq> tile_of ` set (heappush open_set neighbor) \<union> set nbrs"
      by (rule Cons.IH)
    also have "\<dots> \<subseteq> insert nb (tile_of ` set open_set) \<union> set nbrs"
      using p by (rule Un_mono) simp
    also have "\<dots> = tile_of ` set open_set \<union> set (nb # nbrs)"
      by auto
    finally show ?thesis by (simp only: step)
  qed
qed

text \<open>
  The \<open>while open_set\<close> loop of \<open>find_path\<close>. It returns the node at which the goal was
  reached, or \<open>None\<close> when the open set is empty (\<open>heappop\<close> is then not called). It ends on
  every input: a tile enters the closed set once, and only walkable tiles and the tiles
  of the open set can.
\<close>

function astar_loop :: "Level \<Rightarrow> int \<Rightarrow> int \<Rightarrow> Node list \<Rightarrow> (int \<times> int) set \<Rightarrow> Node option" where
  "astar_loop lv goal_x goal_y open_set closed_set =
     (case heappop open_set of
        None \<Rightarrow> None
      | Some (current, open1) \<Rightarrow>
          if (node_x current, node_y current) \<in> closed_set
          then astar_loop lv goal_x goal_y open1 closed_set
          else
            let closed1 = insert (node_x current, node_y current) closed_set
            in if node_x current = goal_x \<and> node_y current = goal_y then Some current
               else astar_loop lv goal_x goal_y
                      (push_neighbors goal_x goal_y current closed1
                         (get_neighbors lv (node_x current) (node_y current)) open1)
                      closed1)"
  by pat_completeness auto

definition unvisited :: "Level \<Rightarrow> Node list \<Rightarrow> (int \<times> int) set \<Rightarrow> (int \<times> int) set" where
  "unvisited lv open_set closed_set = (walkable_tiles lv \<union> tile_of ` set open_set) - closed_set"

lemma finite_unvisited: "finite (unvisited lv open_set closed_set)"
  by (simp add: unvisited_def finite_walkable_tiles)

lemma astar_skip_decreases:
  assumes "heappop open_set = Some (current, open1)"
  shows "card (unvisited lv open1 closed_set) \<le> card (unvisited lv open_set closed_set)
       \<and> length open1 < length open_set"
proof -
  have "set open1 \<subseteq> set open_set" "length open1 < length open_set"
    using heappop_facts [OF assms] by simp_all
  then have "unvisited lv open1 closed_set \<subseteq> unvisited lv open_set closed_set"
    by (auto simp: unvisited_def)
  then show ?thesis
    using \<open>length open1 < length open_set\<close> by (simp add: card_mono finite_unvisited)
qed

lemma astar_expand_decreases:
  assumes "heappop open_set = Some (current, open1)"
    and "(node_x current, node_y current) \<notin> closed_set"
  shows "card (unvisited lv
                 (push_neighbors goal_x goal_y current
                    (insert (node_x current, node_y current) closed_set)
                    (get_neighbors lv (node_x current) (node_y current)) open1)
                 (insert (node_x current, node_y current) closed_set))
           < card (unvisited lv open_set closed_set)"
proof -
  let ?c = "(node_x current, node_y current)"
  let ?open2 = "push_neighbors goal_x goal_y current (insert ?c closed_set)
                    (get_neighbors lv (node_x current) (node_y current)) open1"
  have pop: "current \<in> set open_set" "set open1 \<subseteq> set open_set"
    using heappop_facts [OF assms(1)] by simp_all
  have "tile_of ` set ?open2 \<subseteq> tile_of ` set open1 \<union> walkable_tiles lv"
    using push_neighbors_tiles [of goal_x goal_y current "insert ?c closed_set"
        "get_neighbors lv (node_x current) (node_y current)" open1]
      get_neighbors_walkable [of lv "node_x current" "node_y current"] by blast
  then have sub: "unvisited lv ?open2 (insert ?c closed_set) \<subseteq> unvisited lv open_set closed_set - {?c}"
    using pop(2) by (auto simp: unvisited_def)
  have "?c \<in> unvisited lv open_set closed_set"
    using pop(1) assms(2) by (force simp: unvisited_def tile_of_def)
  then have "unvisited lv open_set closed_set - {?c} \<subset> unvisited lv open_set closed_set"
    by auto
  with sub have "unvisited lv ?open2 (insert ?c closed_set) \<subset> unvisited lv open_set closed_set"
    by (rule subset_psubset_trans)
  then show ?thesis by (rule psubset_card_mono [OF finite_unvisited])
qed

termination astar_loop
proof (relation "inv_image (less_than <*lex*> less_than)
          (\<lambda>(lv, goal_x, goal_y, open_set, closed_set).
             (card (unvisited lv open_set closed_set), length open_set))", goal_cases)
  case 1
  show ?case by (intro wf_inv_image wf_lex_prod wf_less_than)
next
  case (2 lv goal_x goal_y open_set closed_set x2 current open1)
  then show ?case using astar_skip_decreases [of open_set current open1 lv closed_set] by auto
next
  case (3 lv goal_x goal_y open_set closed_set x2 current open1 closed1)
  then show ?case
    using astar_expand_decreases [of open_set current open1 closed_set lv goal_x goal_y] by auto
qed

text \<open>The path from the goal node back along the \<open>parent\<close> fields, in world coordinates.\<close>

fun path_back :: "int \<Rightarrow> Node \<Rightarrow> (real \<times> real) list" where
  "path_back ts (Node tx ty gc hc p) =
     (let world_x = tx * ts + ts div 2;
          world_y = ty * ts + ts div 2
      in (of_int world_x, of_int world_y) # (case p of None \<Rightarrow> [] | Some n \<Rightarrow> path_back ts n))"

datatype py_error = ZeroDivisionError

text \<open>
  \<open>find_path\<close>. World coordinates are floats; \<open>int(v // tile_size)\<close> is the floor of the
  quotient, and a \<open>tile_size\<close> of \<open>0\<close> raises \<open>ZeroDivisionError\<close>.
\<close>

definition find_path ::
  "Pathfinder \<Rightarrow> real \<Rightarrow> real \<Rightarrow> real \<Rightarrow> real \<Rightarrow> py_error + (real \<times> real) list"
where
  "find_path pf start_x start_y goal_x goal_y =
     (if tile_size pf = 0 then Inl ZeroDivisionError
      else
        let lv = path_level pf;
            start_tile_x = \<lfloor>start_x / of_int (tile_size pf)\<rfloor>;
            start_tile_y = \<lfloor>start_y / of_int (tile_size pf)\<rfloor>;
            goal_tile_x = \<lfloor>goal_x / of_int (tile_size pf)\<rfloor>;
            goal_tile_y = \<lfloor>goal_y / of_int (tile_size pf)\<rfloor>;
            (goal_tile_x, goal_tile_y) =
              (if \<not> is_walkable lv goal_tile_x goal_tile_y
               then find_nearest_walkable lv goal_tile_x goal_tile_y 5
               else (goal_tile_x, goal_tile_y));
            (start_tile_x, start_tile_y) =
              (if \<not> is_walkable lv start_tile_x start_tile_y
               then find_nearest_walkable lv start_tile_x start_tile_y 5
               else (start_tile_x, start_tile_y));
            start_node = Node start_tile_x start_tile_y 0
                           (heuristic start_tile_x start_tile_y goal_tile_x goal_tile_y) None
        in case astar_loop lv goal_tile_x goal_tile_y (heappush [] start_node) {} of
             Some current \<Rightarrow> Inr (rev (path_back (tile_size pf) current))
           | None \<Rightarrow> Inr [(goal_x, goal_y)])"

text \<open>
  The distance whose rings \<open>_find_nearest_walkable\<close> walks, the tile \<open>find_path\<close> takes for
  a tile, the tile it takes for a world position, and its search between two tiles.
\<close>

definition diamond :: "int \<Rightarrow> int \<Rightarrow> int \<Rightarrow> int \<Rightarrow> int" where
  "diamond tx ty px py = \<bar>px - tx\<bar> + \<bar>py - ty\<bar>"

definition snap_tile :: "Level \<Rightarrow> int \<Rightarrow> int \<Rightarrow> int \<times> int" where
  "snap_tile lv tx ty =
     (if is_walkable lv tx ty then (tx, ty) else find_nearest_walkable lv tx ty 5)"

declare astar_loop.simps [simp del]

definition snapped :: "Pathfinder \<Rightarrow> real \<Rightarrow> real \<Rightarrow> int \<times> int" where
  "snapped pf wx wy =
     snap_tile (path_level pf) \<lfloor>wx / of_int (tile_size pf)\<rfloor> \<lfloor>wy / of_int (tile_size pf)\<rfloor>"

definition search :: "Level \<Rightarrow> int \<times> int \<Rightarrow> int \<times> int \<Rightarrow> Node option" where
  "search lv start_tile goal_tile =
     astar_loop lv (fst goal_tile) (snd goal_tile)
       (heappush []
          (Node (fst start_tile) (snd start_tile) 0
             (heuristic (fst start_tile) (snd start_tile) (fst goal_tile) (snd goal_tile)) None))
       {}"

section \<open>Concrete inputs\<close>

text \<open>
  A player with the sword of the weapon table, a goblin and a boss; \<open>no_luck\<close> is a
  random source that never crits and never dodges.
\<close>

definition sword :: Weapon where
  "sword = \<lparr>weapon_type = SWORD, attack_delay = 1 / 2, weapon_range = 60, projectile_speed = 0,
            reload_time = 0, penetration = 0, modifiers = Map.empty, last_attack_time = 0,
            ammo = 0\<rparr>"

definition hero :: Entity where
  "hero = \<lparr>transform = Some \<lparr>pos_x = 0, pos_y = 0, vel_dx = 0, vel_dy = 0\<rparr>,
           health = Some \<lparr>max_hp = 100, hp = 100\<rparr>,
           damage = Some \<lparr>base = 15, crit_chance = 0, crit_multiplier = 2, bonus_damage = 0\<rparr>,
           faction = Some \<lparr>tag = PLAYER\<rparr>,
           weapon = Some sword,
           experience = Some \<lparr>level = 1, xp = 0, next_xp = 50, xp_multiplier = 1\<rparr>,
           collider = Some \<lparr>width = 32, height = 32, solid = True, hitbox = None\<rparr>,
           enemy = None\<rparr>"

definition goblin :: Entity where
  "goblin = \<lparr>transform = Some \<lparr>pos_x = 30, pos_y = 0, vel_dx = 0, vel_dy = 0\<rparr>,
             health = Some \<lparr>max_hp = 30, hp = 30\<rparr>,
             damage = None,
             faction = Some \<lparr>tag = ENEMY\<rparr>,
             weapon = None,
             experience = Some \<lparr>level = 2, xp = 0, next_xp = 50, xp_multiplier = 1\<rparr>,
             collider = Some \<lparr>width = 32, height = 32, solid = True, hitbox = None\<rparr>,
             enemy = Some \<lparr>enemy_type = ''goblin''\<rparr>\<rparr>"

definition chief :: Entity where
  "chief = \<lparr>transform = Some \<lparr>pos_x = 40, pos_y = 0, vel_dx = 0, vel_dy = 0\<rparr>,
            health = Some \<lparr>max_hp = 200, hp = 5\<rparr>,
            damage = None,
            faction = Some \<lparr>tag = BOSS\<rparr>,
            weapon = None,
            experience = Some \<lparr>level = 5, xp = 0, next_xp = 50, xp_multiplier = 1\<rparr>,
            collider = Some \<lparr>width = 32, height = 32, solid = True, hitbox = None\<rparr>,
            enemy = Some \<lparr>enemy_type = ''goblin_chief''\<rparr>\<rparr>"

definition no_luck :: "nat \<Rightarrow> real" where
  "no_luck n = 1 / 2"

definition arena :: world where
  "arena = \<lparr>entities = [(0, hero), (1, goblin)], queue = [], rolls_used = 0\<rparr>"


definition boss_room :: world where
  "boss_room = \<lparr>entities = [(0, hero), (1, chief)], queue = [], rolls_used = 0\<rparr>"


definition goblin_at :: "real \<Rightarrow> Entity" where
  "goblin_at px = goblin\<lparr>transform := Some \<lparr>pos_x = px, pos_y = 0, vel_dx = 0, vel_dy = 0\<rparr>\<rparr>"


text \<open>
  A swing at a goblin that stands on the player: the arc hitbox with the window of the
  sword, \<open>[0, 3]\<close>, as \<open>add_arc_hitbox\<close> has just made it for attacker \<open>0\<close>. The goblin is
  at the centre of the arc.
\<close>

definition swing :: Hitbox where
  "swing = ArcHitbox (0, 0) 60 0 1 0 3 0"

definition duel :: WeaponAttackSystem where
  "duel = \<lparr>game = \<lparr>entities = [(0, hero), (1, goblin_at 0)], queue = [], rolls_used = 0\<rparr>,
           hitbox_manager = \<lparr>active_hitboxes = [swing], frame_counter = 0\<rparr>,
           attack_frames = [(0, 0)]\<rparr>"

text \<open>\<open>n\<close> calls of \<open>update\<close> in a row.\<close>

fun updates :: "nat \<Rightarrow> HitboxManager \<Rightarrow> HitboxManager option" where
  "updates 0 m = Some m"
| "updates (Suc n) m = (case update m of None \<Rightarrow> None | Some m' \<Rightarrow> updates n m')"

text \<open>The duel after one and after two calls of \<open>update_attack_frames\<close>.\<close>

definition duel1 :: WeaponAttackSystem where
  "duel1 = \<lparr>game = \<lparr>entities = [(0, hero),
                                (1, (goblin_at 0)\<lparr>health := Some \<lparr>max_hp = 30, hp = 15\<rparr>\<rparr>)],
                    queue = [DAMAGE_TAKEN 1 15 0 False], rolls_used = 2\<rparr>,
            hitbox_manager = \<lparr>active_hitboxes = [set_current_frame 1 swing], frame_counter = 1\<rparr>,
            attack_frames = [(0, 1)]\<rparr>"

definition duel2 :: WeaponAttackSystem where
  "duel2 = \<lparr>game = \<lparr>entities =
                      [(0, hero\<lparr>experience :=
                                  Some \<lparr>level = 1, xp = 12, next_xp = 50, xp_multiplier = 1\<rparr>\<rparr>)],
                    queue = [DAMAGE_TAKEN 1 15 0 False, DAMAGE_TAKEN 1 15 0 False,
                             ENEMY_KILLED 1 0],
                    rolls_used = 4\<rparr>,
            hitbox_manager = \<lparr>active_hitboxes = [set_current_frame 2 swing], frame_counter = 2\<rparr>,
            attack_frames = [(0, 2)]\<rparr>"

text \<open>Three levels of one row: all walls, all floor, and floor only at the left end.\<close>

definition wall_tile :: Tile where
  "wall_tile = \<lparr>tile_type = WALL, walkable = False, blocks_sight = True\<rparr>"

definition floor_tile :: Tile where
  "floor_tile = \<lparr>tile_type = FLOOR, walkable = True, blocks_sight = False\<rparr>"

definition sealed :: Pathfinder where
  "sealed = \<lparr>path_level = \<lparr>level_width = 3, level_height = 1,
                             tiles = [[wall_tile, wall_tile, wall_tile]]\<rparr>,
             tile_size = 32\<rparr>"

definition hall :: Pathfinder where
  "hall = \<lparr>path_level = \<lparr>level_width = 3, level_height = 1,
                           tiles = [[floor_tile, floor_tile, floor_tile]]\<rparr>,
           tile_size = 32\<rparr>"

definition nook :: Pathfinder where
  "nook = \<lparr>path_level = \<lparr>level_width = 3, level_height = 1,
                           tiles = [[floor_tile, wall_tile, wall_tile]]\<rparr>,
           tile_size = 32\<rparr>"

section \<open>Health, Damage and Experience\<close>

lemma py_int_nonneg: "0 \<le> v \<Longrightarrow> 0 \<le> py_int v"
  by (simp add: py_int_def)

lemma py_int_of_int: "py_int (of_int n) = n"
  by (simp add: py_int_def)

lemma py_int_grow: "1 \<le> n \<Longrightarrow> n \<le> py_int (of_int n * 1.5)"
  by (simp add: py_int_def le_floor_iff)

text \<open>
  C1. For a Health component with \<open>0 \<le> hp \<le> max_hp\<close> and a damage amount \<open>d \<ge> 0\<close>,
  \<open>take_damage d\<close> returns \<open>min d hp\<close> and leaves \<open>hp = max 0 (hp - d)\<close>; the new hp is
  never negative and never exceeds \<open>max_hp\<close>, which is unchanged.
\<close>

theorem take_damage_correct:
  assumes "0 \<le> hp h" and "hp h \<le> max_hp h" and "0 \<le> d"
  shows "snd (take_damage h d) = min d (hp h)
       \<and> hp (fst (take_damage h d)) = max 0 (hp h - d)
       \<and> 0 \<le> hp (fst (take_damage h d))
       \<and> hp (fst (take_damage h d)) \<le> max_hp (fst (take_damage h d))
       \<and> max_hp (fst (take_damage h d)) = max_hp h"
  using assms by (auto simp: take_damage_def Let_def)

theorem take_damage_correct_witness:
  "snd (take_damage \<lparr>max_hp = 100, hp = 50\<rparr> 70) = 50
   \<and> hp (fst (take_damage \<lparr>max_hp = 100, hp = 50\<rparr> 70)) = 0
   \<and> snd (take_damage \<lparr>max_hp = 100, hp = 50\<rparr> 30) = 30
   \<and> hp (fst (take_damage \<lparr>max_hp = 100, hp = 50\<rparr> 30)) = 20"
  using take_damage_correct [of "\<lparr>max_hp = 100, hp = 50\<rparr>" 70]
        take_damage_correct [of "\<lparr>max_hp = 100, hp = 50\<rparr>" 30]
  by simp




text \<open>
  The level-up loop started with \<open>xp \<ge> 0\<close> and \<open>next_xp \<ge> 1\<close> returns: every round takes
  at least one point off \<open>xp\<close>, and \<open>next_xp\<close> never shrinks.
\<close>

lemma add_xp_loop_returns:
  assumes "0 \<le> xp e" and "1 \<le> next_xp e"
  shows "\<exists>e' b. add_xp_loop e lv = Some (e', b) \<and> 0 \<le> xp e' \<and> xp e' < next_xp e'
           \<and> level e \<le> level e' \<and> (b \<longleftrightarrow> lv \<or> level e < level e')"
  using assms
proof (induction "nat (xp e)" arbitrary: e lv rule: less_induct)
  case less
  show ?case
  proof (cases "next_xp e \<le> xp e")
    case False
    then show ?thesis using less.prems
      by (subst add_xp_loop.simps) simp
  next
    case True
    let ?e1 = "e\<lparr>xp := xp e - next_xp e, level := level e + 1,
                  next_xp := py_int (of_int (next_xp e) * 1.5)\<rparr>"
    have grow: "next_xp e \<le> next_xp ?e1"
      using py_int_grow [OF less.prems(2)] by simp
    have "nat (xp ?e1) < nat (xp e)"
      using True less.prems by simp
    moreover have "0 \<le> xp ?e1"
      using True by simp
    moreover have "1 \<le> next_xp ?e1"
      using grow less.prems(2) by linarith
    ultimately obtain e' b where r: "add_xp_loop ?e1 True = Some (e', b)"
        "0 \<le> xp e'" "xp e' < next_xp e'" "level ?e1 \<le> level e'" "b"
      using less.hyps [of ?e1 True] by blast
    have "add_xp_loop e lv = add_xp_loop ?e1 True"
      using True by (subst add_xp_loop.simps) simp
    then show ?thesis using r by auto
  qed
qed

text \<open>
  C10. For an Experience state with \<open>xp \<ge> 0\<close>, \<open>next_xp \<ge> 1\<close> and \<open>xp_multiplier \<ge> 0\<close>, and an
  amount \<open>\<ge> 0\<close>, \<open>add_xp\<close> returns (the loop ends); afterwards \<open>0 \<le> xp < next_xp\<close>, and the
  returned flag is true exactly when the level has grown.
\<close>

theorem add_xp_terminates:
  assumes "0 \<le> xp e" and "1 \<le> next_xp e" and "0 \<le> xp_multiplier e" and "0 \<le> amount"
  shows "\<exists>e' b. add_xp e amount = Some (e', b) \<and> 0 \<le> xp e' \<and> xp e' < next_xp e'
           \<and> (b \<longleftrightarrow> level e < level e')"
proof -
  let ?e0 = "e\<lparr>xp := xp e + py_int (of_int amount * xp_multiplier e)\<rparr>"
  have "0 \<le> py_int (of_int amount * xp_multiplier e)"
    using assms(3,4) by (intro py_int_nonneg) simp
  then have "0 \<le> xp ?e0" and "1 \<le> next_xp ?e0"
    using assms(1,2) by simp_all
  from add_xp_loop_returns [OF this, of False] show ?thesis
    by (auto simp: add_xp_def Let_def)
qed

theorem add_xp_terminates_witness:
  "add_xp \<lparr>level = 1, xp = 40, next_xp = 50, xp_multiplier = 1\<rparr> 100
     = Some (\<lparr>level = 3, xp = 15, next_xp = 112, xp_multiplier = 1\<rparr>, True)
   \<and> (\<exists>e' b. add_xp \<lparr>level = 1, xp = 40, next_xp = 50, xp_multiplier = 1\<rparr> 100 = Some (e', b)
         \<and> 0 \<le> xp e' \<and> xp e' < next_xp e'
         \<and> (b \<longleftrightarrow> level \<lparr>level = 1, xp = 40, next_xp = 50, xp_multiplier = 1\<rparr> < level e'))"
  using add_xp_terminates [of "\<lparr>level = 1, xp = 40, next_xp = 50, xp_multiplier = 1\<rparr>" 100]
  by (simp add: add_xp_def add_xp_loop.simps py_int_def)

section \<open>Status effects\<close>

lemma list_remove_self:
  "i \<notin> set pre \<Longrightarrow> \<forall>j \<in> set pre. store ! j \<noteq> store ! i \<Longrightarrow>
   list_remove store i (pre @ i # post) = Some (pre @ post)"
  by (induction pre) auto

lemma ticked_store_step:
  assumes "k < length xs"
  shows "(map f (take k xs) @ drop k xs)[k := f ((map f (take k xs) @ drop k xs) ! k)]
         = map f (take (Suc k) xs) @ drop (Suc k) xs"
  using assms
  by (intro nth_equalityI) (auto simp: nth_append nth_list_update less_Suc_eq)

lemma nth_filter_upt:
  "map ((!) (map f xs)) (filter (\<lambda>j. P (f (xs ! j))) [0..<length xs]) = filter P (map f xs)"
proof -
  have "filter (\<lambda>j. P (f (xs ! j))) [0..<length xs]
          = filter (P \<circ> (!) (map f xs)) [0..<length (map f xs)]"
    by (intro filter_cong) auto
  then have "map ((!) (map f xs)) (filter (\<lambda>j. P (f (xs ! j))) [0..<length xs])
          = filter P (map ((!) (map f xs)) [0..<length (map f xs)])"
    by (simp only: filter_map)
  then show ?thesis by (simp only: map_nth)
qed

lemma update_loop_inv:
  assumes "k \<le> length effs"
  shows "update_loop dt [k..<length effs]
           (map (tick dt) (take k effs) @ drop k effs)
           (filter (\<lambda>j. 0 < duration (tick dt (effs ! j))) [0..<k] @ [k..<length effs])
         = Some (map (tick dt) effs, filter (\<lambda>j. 0 < duration (tick dt (effs ! j))) [0..<length effs])"
  using assms
proof (induction "length effs - k" arbitrary: k)
  case 0
  then show ?case by simp
next
  case (Suc d)
  let ?n = "length effs"
  let ?alive = "\<lambda>j. 0 < duration (tick dt (effs ! j))"
  let ?store = "map (tick dt) (take k effs) @ drop k effs"
  have k: "k < ?n" using Suc.hyps(2) by simp
  have upt: "[k..<?n] = k # [Suc k..<?n]" using k by (simp add: upt_conv_Cons)
  have sk: "?store ! k = effs ! k" using k by (simp add: nth_append)
  let ?store' = "?store[k := (?store ! k)\<lparr>duration := duration (?store ! k) - dt\<rparr>]"
  have st: "?store' = map (tick dt) (take (Suc k) effs) @ drop (Suc k) effs"
    using ticked_store_step[OF k, of "tick dt"] by (simp add: tick_def)
  have IH: "update_loop dt [Suc k..<?n] (map (tick dt) (take (Suc k) effs) @ drop (Suc k) effs)
       (filter ?alive [0..<Suc k] @ [Suc k..<?n]) = Some (map (tick dt) effs, filter ?alive [0..<?n])"
    using Suc.hyps(1)[of "Suc k"] Suc.hyps(2) k by simp
  have nk: "?store' ! k = tick dt (effs ! k)" using k sk by (simp add: tick_def)
  show ?case
  proof (cases "?alive k")
    case True
    have f: "filter ?alive [0..<Suc k] = filter ?alive [0..<k] @ [k]" using True by simp
    have d: "\<not> duration (?store ! k) - dt \<le> 0" using True sk by (simp add: tick_def)
    show ?thesis
      apply (subst upt) apply (subst upt)
      apply (subst update_loop.simps)
      using d IH st f
      by (simp add: Let_def del: upt_Suc)
  next
    case False
    have pre: "k \<notin> set (filter ?alive [0..<k])" by simp
    have ne: "\<forall>j \<in> set (filter ?alive [0..<k]). ?store' ! j \<noteq> ?store' ! k"
    proof
      fix j assume "j \<in> set (filter ?alive [0..<k])"
      then have j: "j < k" "?alive j" by auto
      have "?store' ! j = tick dt (effs ! j)" using j k by (simp add: nth_append)
      then show "?store' ! j \<noteq> ?store' ! k" using nk j(2) False by auto
    qed
    have rm: "list_remove ?store' k (filter ?alive [0..<k] @ k # [Suc k..<?n])
               = Some (filter ?alive [0..<k] @ [Suc k..<?n])"
      by (rule list_remove_self[OF pre ne])
    have f: "filter ?alive [0..<Suc k] = filter ?alive [0..<k]" using False by simp
    have d: "duration (?store ! k) - dt \<le> 0" using False sk by (simp add: tick_def)
    show ?thesis
      apply (subst upt) apply (subst upt)
      apply (subst update_loop.simps)
      using d rm IH st f
      by (simp add: Let_def del: upt_Suc list_remove.simps)
  qed
qed

lemma update_effects_eq:
  "update_effects dt effs = Some (filter (\<lambda>e. 0 < duration e) (map (tick dt) effs))"
  using update_loop_inv[of 0 effs dt] nth_filter_upt[of "tick dt" effs "\<lambda>e. 0 < duration e"]
  by (simp add: update_effects_def)

lemma kinds_tick: "map effect_type (map (tick dt) effs) = map effect_type effs"
  by (simp add: tick_def)

lemma kinds_add_effect:
  "map effect_type (add_effect effs e) =
     (if effect_type e \<in> effect_type ` set effs then map effect_type effs
      else map effect_type effs @ [effect_type e])"
  by (induction effs) auto

lemma add_effect_refresh:
  "\<forall>y \<in> set pre. effect_type y \<noteq> effect_type e \<Longrightarrow> effect_type x = effect_type e \<Longrightarrow>
   add_effect (pre @ x # post) e = pre @ x\<lparr>duration := duration e\<rparr> # post"
  by (induction pre) auto

lemma add_effect_append:
  "effect_type e \<notin> effect_type ` set effs \<Longrightarrow> add_effect effs e = effs @ [e]"
  by (induction effs) auto

lemma one_per_kind_add: "one_per_kind effs \<Longrightarrow> one_per_kind (add_effect effs e)"
  by (auto simp: one_per_kind_def kinds_add_effect)

lemma one_per_kind_remove: "one_per_kind effs \<Longrightarrow> one_per_kind (remove_effect effs t)"
  by (simp add: one_per_kind_def remove_effect_def distinct_map_filter)

lemma one_per_kind_update:
  "one_per_kind effs \<Longrightarrow> one_per_kind (filter (\<lambda>x. 0 < duration x) (map (tick dt) effs))"
proof -
  have "map effect_type (map (tick dt) effs) = map effect_type effs"
    by (rule kinds_tick)
  then have "distinct (map effect_type effs) \<Longrightarrow> distinct (map effect_type (map (tick dt) effs))"
    by (simp only:)
  then show "one_per_kind effs \<Longrightarrow> ?thesis"
    unfolding one_per_kind_def by (intro distinct_map_filter)
qed

text \<open>
  C9. Every operation of StatusEffects keeps at most one effect of each kind. Adding an
  effect whose kind is present gives the new duration to the present effect, adds no
  second one and leaves its value alone; adding one of a new kind appends it. \<open>update\<close>
  returns (no \<open>ValueError\<close>), takes \<open>dt\<close> off every duration, and drops exactly the effects
  whose duration is then \<open>0\<close> or below.
\<close>

theorem status_effects_invariant:
  assumes "one_per_kind effs"
  shows "one_per_kind (add_effect effs e)
       \<and> one_per_kind (remove_effect effs t)
       \<and> (\<exists>effs'. update_effects dt effs = Some effs' \<and> one_per_kind effs'
             \<and> effs' = filter (\<lambda>x. 0 < duration x) (map (tick dt) effs))
       \<and> (\<forall>pre x post. effs = pre @ x # post \<and> effect_type x = effect_type e \<longrightarrow>
             add_effect effs e = pre @ x\<lparr>duration := duration e\<rparr> # post)
       \<and> (effect_type e \<notin> effect_type ` set effs \<longrightarrow> add_effect effs e = effs @ [e])"
proof -
  have "add_effect effs e = pre @ x\<lparr>duration := duration e\<rparr> # post"
    if "effs = pre @ x # post" "effect_type x = effect_type e" for pre x post
  proof -
    have "\<forall>y \<in> set pre. effect_type y \<noteq> effect_type e"
      using assms that by (auto simp: one_per_kind_def image_iff)
    then show ?thesis using that add_effect_refresh by simp
  qed
  then show ?thesis
    using assms one_per_kind_add one_per_kind_remove one_per_kind_update update_effects_eq
      add_effect_append by blast
qed


theorem status_effects_invariant_witness:
  "one_per_kind [slow2, poison1]
   \<and> add_effect [slow2, poison1] slow5 = [slow2\<lparr>duration := 5\<rparr>, poison1]
   \<and> update_effects 1 [slow2, poison1] = Some [slow2\<lparr>duration := 1\<rparr>]
   \<and> one_per_kind (add_effect [slow2, poison1] slow5)"
  using status_effects_invariant [of "[slow2, poison1]" slow5 POISON 1]
  by (simp add: one_per_kind_def update_effects_def upt_conv_Cons slow2_def poison1_def
      slow5_def Let_def)

section \<open>Combat: damage, dodge and death\<close>

lemmas example_defs = arena_def boss_room_def hero_def goblin_def chief_def sword_def no_luck_def

lemmas store_defs = get_entity_def update_entity_def remove_entity_def emit_def random_random_def

lemma map_of_update_entity:
  "map_of (map (\<lambda>(k, e). if k = i then (k, f e) else (k, e)) es) j =
     (if j = i then map_option f (map_of es j) else map_of es j)"
  by (induction es) auto

lemma map_of_remove_entity:
  "map_of (filter (\<lambda>(k, e). k \<noteq> i) es) j = (if j = i then None else map_of es j)"
  by (induction es) auto

lemma get_entity_update [simp]:
  "get_entity (update_entity w i f) j =
     (if j = i then map_option f (get_entity w j) else get_entity w j)"
  by (simp add: get_entity_def update_entity_def map_of_update_entity)

lemma get_entity_remove [simp]:
  "get_entity (remove_entity w i) j = (if j = i then None else get_entity w j)"
  by (simp add: get_entity_def remove_entity_def map_of_remove_entity)

lemma get_entity_emit [simp]: "get_entity (emit w ev) j = get_entity w j"
  by (simp add: get_entity_def emit_def)

lemma get_entity_rolls [simp]: "get_entity (w\<lparr>rolls_used := n\<rparr>) j = get_entity w j"
  by (simp add: get_entity_def)

lemma queue_simps [simp]:
  "queue (update_entity w i f) = queue w"
  "queue (remove_entity w i) = queue w"
  "queue (emit w ev) = queue w @ [ev]"
  by (simp_all add: update_entity_def remove_entity_def emit_def)

lemma xp_amount: "py_int (10 * (1 + of_int l * 0.1)) = 10 + l"
proof -
  have "10 * (1 + of_int l * 0.1) = (of_int (10 + l) :: real)" by simp
  then show ?thesis by (simp only: py_int_of_int)
qed



text \<open>
  C4. When the target of \<open>apply_damage\<close> has the faction tag \<open>ENEMY\<close> and the dodge roll (the
  next value of the random source) is below \<open>0.1\<close>, the call returns \<open>0\<close> and changes nothing
  but the random source: no hp changes and no event is queued, whatever the damage
  amount. (A target without a Health component gets \<open>0\<close> without a roll.)
\<close>

theorem apply_damage_enemy_dodge:
  assumes "get_entity w target_id = Some target"
    and "faction target = Some fa" and "tag fa = ENEMY" and "rnd (rolls_used w) < 0.1"
  shows "apply_damage rnd w target_id dmg attacker_id is_crit
           = Some (if health target = None then w else w\<lparr>rolls_used := Suc (rolls_used w)\<rparr>, 0)"
  using assms by (auto simp: apply_damage_def random_random_def)

text \<open>
  When the damage takes the last hp of the target (and the target has not dodged),
  \<open>apply_damage\<close> stores the hp \<open>0\<close>, queues \<open>DAMAGE_TAKEN\<close> and runs \<open>handle_death\<close> with the
  attacker as the killer.
\<close>

lemma apply_damage_runs_handle_death:
  assumes "get_entity w target_id = Some target" and "health target = Some hl"
    and "\<not> (map_option tag (faction target) = Some ENEMY \<and> rnd (rolls_used w) < 0.1)"
    and "0 < hp hl" and "hp hl \<le> dmg"
  shows "apply_damage rnd w target_id dmg attacker_id is_crit =
           map_option (\<lambda>w3. (w3, hp hl))
             (handle_death
                (emit (update_entity
                         (if map_option tag (faction target) = Some ENEMY
                          then w\<lparr>rolls_used := Suc (rolls_used w)\<rparr> else w)
                         target_id (\<lambda>e. e\<lparr>health := Some (hl\<lparr>hp := 0\<rparr>)\<rparr>))
                   (DAMAGE_TAKEN target_id (hp hl) attacker_id is_crit))
                target_id attacker_id)"
  using assms
  by (auto simp: apply_damage_def random_random_def take_damage_def is_alive_def Let_def max_def)




theorem apply_damage_enemy_dodge_witness:
  "apply_damage (\<lambda>n. 0) arena 1 10 0 False = Some (arena\<lparr>rolls_used := 1\<rparr>, 0)
   \<and> apply_damage (\<lambda>n. 0) arena 1 1000 0 True = Some (arena\<lparr>rolls_used := 1\<rparr>, 0)"
  using apply_damage_enemy_dodge [of arena 1 goblin "\<lparr>tag = ENEMY\<rparr>" "\<lambda>n. 0" 10 0 False]
    apply_damage_enemy_dodge [of arena 1 goblin "\<lparr>tag = ENEMY\<rparr>" "\<lambda>n. 0" 1000 0 True]
  by (simp add: example_defs store_defs)


section \<open>Combat: what an attack leaves alone\<close>

lemma length_entities_simps [simp]:
  "length (entities (update_entity w i f)) = length (entities w)"
  "length (entities (emit w ev)) = length (entities w)"
  "length (entities (w\<lparr>rolls_used := n\<rparr>)) = length (entities w)"
  by (simp_all add: update_entity_def emit_def)

lemma same_but_xp_refl [simp]: "same_but_xp e e"
  by (simp add: same_but_xp_def)

lemma same_but_xp_update [simp]: "same_but_xp e (e\<lparr>experience := x\<rparr>)"
  by (simp add: same_but_xp_def)


lemma same_but_xp_fields:
  "same_but_xp e e' \<Longrightarrow>
     weapon e' = weapon e \<and> health e' = health e \<and> faction e' = faction e
     \<and> transform e' = transform e \<and> damage e' = damage e"
  unfolding same_but_xp_def by (metis Entity.select_convs Entity.surjective Entity.update_convs(6))

lemma xp_kept_refl [simp]: "xp_kept w w a"
  by (simp add: xp_kept_def option.rel_refl)

lemma xp_kept_eq: "get_entity w' a = get_entity w a \<Longrightarrow> xp_kept w w' a"
  by (simp add: xp_kept_def option.rel_refl)






section \<open>The loop of perform_attack\<close>






declare attack_loop.simps(2) [simp del]






section \<open>perform_attack ends\<close>



lemma xp_sane_cong: "get_entity w' a = get_entity w a \<Longrightarrow> xp_sane w' a = xp_sane w a"
  by (simp add: xp_sane_def)





lemma keys_update_entity [simp]: "map fst (entities (update_entity w i f)) = map fst (entities w)"
  by (simp add: update_entity_def) (induction "entities w", auto)




lemmas combat_defs = perform_attack_def attack_loop.simps apply_damage_def handle_death_def grant_xp_def
  calculate_damage_def take_damage_def is_alive_def can_attack_def get_effective_range_def is_enemy_of_def
  store_defs


text \<open>
  The \<open>RuntimeError\<close> of the model is met: a kill removes the target from the dict the
  loop is walking.
\<close>

lemma perform_attack_kill_raises:
  "perform_attack no_luck boss_room 0 (40, 0) 1 =
     RuntimeError
       \<lparr>entities =
          [(0, hero\<lparr>weapon := Some (sword\<lparr>last_attack_time := 1\<rparr>),
                    experience := Some \<lparr>level = 1, xp = 45, next_xp = 50, xp_multiplier = 1\<rparr>\<rparr>)],
        queue = [DAMAGE_TAKEN 1 5 0 False, ENEMY_KILLED 1 0], rolls_used = 1\<rparr>"
  by (simp add: combat_defs example_defs add_xp_def add_xp_loop.simps py_int_def Let_def)

section \<open>Hitbox windows\<close>

lemma frames_of_set_current_frame [simp]:
  "current_frame (set_current_frame n h) = n"
  "start_frame (set_current_frame n h) = start_frame h"
  "end_frame (set_current_frame n h) = end_frame h"
  by (cases h; simp)+

lemma remove_all_filter_gen:
  "\<forall>v \<in> set pre. \<not> P v \<Longrightarrow>
   remove_all (filter P ys) (pre @ ys) = Some (pre @ filter (\<lambda>v. \<not> P v) ys)"
proof (induction ys arbitrary: pre)
  case Nil
  then show ?case by simp
next
  case (Cons y ys)
  show ?case
  proof (cases "P y")
    case True
    then have "y \<notin> set pre" using Cons.prems by auto
    then have "py_remove y (pre @ y # ys) = Some (pre @ ys)"
      by (simp add: py_remove_def remove1_append)
    then show ?thesis using True Cons.IH [OF Cons.prems] by simp
  next
    case False
    then have "\<forall>v \<in> set (pre @ [y]). \<not> P v" using Cons.prems by simp
    from Cons.IH [OF this] show ?thesis using False by simp
  qed
qed

lemma remove_all_filter: "remove_all (filter P xs) xs = Some (filter (\<lambda>v. \<not> P v) xs)"
  using remove_all_filter_gen [of "[]" P xs] by simp

lemma update_eq:
  "update m = Some \<lparr>active_hitboxes =
                      filter (\<lambda>h. frame_counter m + 1 \<le> end_frame h)
                        (map (set_current_frame (frame_counter m + 1)) (active_hitboxes m)),
                    frame_counter = frame_counter m + 1\<rparr>"
proof -
  have "filter (\<lambda>h. \<not> current_frame h > end_frame h)
          (map (set_current_frame (frame_counter m + 1)) (active_hitboxes m))
      = filter (\<lambda>h. frame_counter m + 1 \<le> end_frame h)
          (map (set_current_frame (frame_counter m + 1)) (active_hitboxes m))"
    by (intro filter_cong) auto
  then show ?thesis
    by (simp add: update_def Let_def remove_all_filter)
qed

lemma check_hitbox_inactive:
  "\<not> is_active h \<Longrightarrow> check_hitbox h a ex ents acc = acc"
  by (simp add: check_hitbox_def)

lemma synced_ops:
  "synced new_manager"
  "synced m \<Longrightarrow> synced (fst (add_arc_hitbox m c r sa aa sf ef))"
  "synced m \<Longrightarrow> synced (fst (add_line_hitbox m s e wd sf ef))"
  "synced (clear m)"
  by (auto simp: synced_def new_manager_def add_arc_hitbox_def add_line_hitbox_def clear_def Let_def)

text \<open>
  C5, amended. A hitbox registers hits only while its own \<open>current_frame\<close> lies in
  \<open>[start_frame, end_frame]\<close>; \<open>update\<close> sets the \<open>current_frame\<close> of every listed hitbox to
  the incremented shared counter, and a hitbox added since the last \<open>update\<close> still
  carries \<open>0\<close>. So in every state of a manager (new, and after each of its operations):
  a hit check when the counter equals \<open>start_frame - 1\<close> registers nothing for that
  hitbox; \<open>update\<close> returns, and after it every listed hitbox carries the counter and
  registers hits only if the counter lies in its window; and every hitbox whose frame
  exceeds \<open>end_frame\<close> is off the list after the next \<open>update\<close>.
\<close>

theorem hitbox_window:
  assumes "synced m"
  shows "synced (fst (add_arc_hitbox m c r sa aa sf ef))
       \<and> current_frame (snd (add_arc_hitbox m c r sa aa sf ef)) = 0
       \<and> synced (fst (add_line_hitbox m s e wd sf ef))
       \<and> current_frame (snd (add_line_hitbox m s e wd sf ef)) = 0
       \<and> (\<forall>h a ex ents acc.
            \<not> (start_frame h \<le> current_frame h \<and> current_frame h \<le> end_frame h)
            \<longrightarrow> check_hitbox h a ex ents acc = acc)
       \<and> (\<forall>h \<in> set (active_hitboxes m). frame_counter m = start_frame h - 1
            \<longrightarrow> (\<forall>a ex ents acc. check_hitbox h a ex ents acc = acc))
       \<and> (\<exists>m'. update m = Some m' \<and> synced m' \<and> frame_counter m' = frame_counter m + 1
            \<and> active_hitboxes m' =
                 filter (\<lambda>h. frame_counter m' \<le> end_frame h)
                   (map (set_current_frame (frame_counter m')) (active_hitboxes m))
            \<and> (\<forall>h \<in> set (active_hitboxes m').
                  current_frame h = frame_counter m' \<and> current_frame h \<le> end_frame h)
            \<and> (\<forall>h \<in> set (active_hitboxes m). end_frame h < current_frame h
                  \<longrightarrow> set_current_frame (frame_counter m') h \<notin> set (active_hitboxes m'))
            \<and> (\<forall>h \<in> set (active_hitboxes m'). \<forall>a ex ents acc.
                  check_hitbox h a ex ents acc \<noteq> acc
                  \<longrightarrow> start_frame h \<le> frame_counter m' \<and> frame_counter m' \<le> end_frame h))"
proof (intro conjI)
  show "synced (fst (add_arc_hitbox m c r sa aa sf ef))"
    and "synced (fst (add_line_hitbox m s e wd sf ef))"
    using assms by (simp_all add: synced_ops)
  show "current_frame (snd (add_arc_hitbox m c r sa aa sf ef)) = 0"
    and "current_frame (snd (add_line_hitbox m s e wd sf ef)) = 0"
    by (simp_all add: add_arc_hitbox_def add_line_hitbox_def Let_def)
  show "\<forall>h a ex ents acc.
            \<not> (start_frame h \<le> current_frame h \<and> current_frame h \<le> end_frame h)
            \<longrightarrow> check_hitbox h a ex ents acc = acc"
    by (simp add: check_hitbox_def is_active_def)
  show "\<forall>h \<in> set (active_hitboxes m). frame_counter m = start_frame h - 1
            \<longrightarrow> (\<forall>a ex ents acc. check_hitbox h a ex ents acc = acc)"
  proof (intro ballI impI allI)
    fix h a ex ents acc
    assume h: "h \<in> set (active_hitboxes m)" and c: "frame_counter m = start_frame h - 1"
    have "current_frame h = 0 \<or> current_frame h = frame_counter m" and "0 \<le> frame_counter m"
      using assms h by (auto simp: synced_def)
    then have "current_frame h < start_frame h" using c by auto
    then show "check_hitbox h a ex ents acc = acc"
      by (simp add: check_hitbox_def is_active_def)
  qed
  define m' where "m' = \<lparr>active_hitboxes =
                      filter (\<lambda>h. frame_counter m + 1 \<le> end_frame h)
                        (map (set_current_frame (frame_counter m + 1)) (active_hitboxes m)),
                    frame_counter = frame_counter m + 1\<rparr>"
  have u: "update m = Some m'" by (simp add: update_eq m'_def)
  have c: "frame_counter m' = frame_counter m + 1" by (simp add: m'_def)
  have l: "active_hitboxes m' = filter (\<lambda>h. frame_counter m' \<le> end_frame h)
                   (map (set_current_frame (frame_counter m')) (active_hitboxes m))"
    by (simp add: m'_def)
  have cur: "\<forall>h \<in> set (active_hitboxes m').
                  current_frame h = frame_counter m' \<and> current_frame h \<le> end_frame h"
    unfolding l by auto
  have s: "synced m'" using assms cur c by (auto simp: synced_def)
  have gone: "\<forall>h \<in> set (active_hitboxes m). end_frame h < current_frame h
                  \<longrightarrow> set_current_frame (frame_counter m') h \<notin> set (active_hitboxes m')"
  proof (intro ballI impI)
    fix h assume h: "h \<in> set (active_hitboxes m)" and e: "end_frame h < current_frame h"
    have "current_frame h = 0 \<or> current_frame h = frame_counter m" and "0 \<le> frame_counter m"
      using assms h by (auto simp: synced_def)
    then have "end_frame h < frame_counter m'" using e c by auto
    then show "set_current_frame (frame_counter m') h \<notin> set (active_hitboxes m')"
      using cur by fastforce
  qed
  have act: "\<forall>h \<in> set (active_hitboxes m'). \<forall>a ex ents acc.
                  check_hitbox h a ex ents acc \<noteq> acc
                  \<longrightarrow> start_frame h \<le> frame_counter m' \<and> frame_counter m' \<le> end_frame h"
  proof (intro ballI allI impI)
    fix h a ex ents acc
    assume h: "h \<in> set (active_hitboxes m')" and ne: "check_hitbox h a ex ents acc \<noteq> acc"
    then have "is_active h" using check_hitbox_inactive by blast
    then show "start_frame h \<le> frame_counter m' \<and> frame_counter m' \<le> end_frame h"
      using cur h by (auto simp: is_active_def)
  qed
  show "\<exists>m'. update m = Some m' \<and> synced m' \<and> frame_counter m' = frame_counter m + 1
            \<and> active_hitboxes m' =
                 filter (\<lambda>h. frame_counter m' \<le> end_frame h)
                   (map (set_current_frame (frame_counter m')) (active_hitboxes m))
            \<and> (\<forall>h \<in> set (active_hitboxes m').
                  current_frame h = frame_counter m' \<and> current_frame h \<le> end_frame h)
            \<and> (\<forall>h \<in> set (active_hitboxes m). end_frame h < current_frame h
                  \<longrightarrow> set_current_frame (frame_counter m') h \<notin> set (active_hitboxes m'))
            \<and> (\<forall>h \<in> set (active_hitboxes m'). \<forall>a ex ents acc.
                  check_hitbox h a ex ents acc \<noteq> acc
                  \<longrightarrow> start_frame h \<le> frame_counter m' \<and> frame_counter m' \<le> end_frame h)"
    using u s c l cur gone act by blast
qed

lemmas hit_defs = check_hits_def check_hitbox_def check_entity_def is_active_def update_def
  py_remove_def new_manager_def add_arc_hitbox_def

lemmas duel_defs = duel_def duel1_def duel2_def swing_def goblin_at_def example_defs

theorem hitbox_window_witness:
  "synced \<lparr>active_hitboxes = [ArcHitbox (0, 0) 60 0 1 2 3 1, LineHitbox (0, 0) (9, 0) 4 0 1 1],
          frame_counter = 1\<rparr>
   \<and> check_hitbox (ArcHitbox (0, 0) 60 0 1 2 3 1) 0 [] (entities (game duel)) [] = []
   \<and> update \<lparr>active_hitboxes = [ArcHitbox (0, 0) 60 0 1 2 3 1, LineHitbox (0, 0) (9, 0) 4 0 1 1],
              frame_counter = 1\<rparr>
       = Some \<lparr>active_hitboxes = [ArcHitbox (0, 0) 60 0 1 2 3 2], frame_counter = 2\<rparr>
   \<and> check_hitbox (ArcHitbox (0, 0) 60 0 1 2 3 2) 0 [] (entities (game duel)) [] = [1]"
  using hitbox_window
    [of "\<lparr>active_hitboxes = [ArcHitbox (0, 0) 60 0 1 2 3 1, LineHitbox (0, 0) (9, 0) 4 0 1 1],
          frame_counter = 1\<rparr>"]
  by (simp add: synced_def hit_defs duel_defs Let_def)

text \<open>
  C5, as stated, ties the hits to the shared counter. A hitbox with the window \<open>[0, 3]\<close>
  added when the counter is \<open>5\<close> carries frame \<open>0\<close> until the next \<open>update\<close>: a hit check
  then registers a hit, while the counter \<open>5\<close> is outside the window.
\<close>

theorem fresh_hitbox_counterexample:
  "updates 5 new_manager = Some \<lparr>active_hitboxes = [], frame_counter = 5\<rparr>
   \<and> fst (add_arc_hitbox \<lparr>active_hitboxes = [], frame_counter = 5\<rparr> (0, 0) 60 0 1 0 3)
       = \<lparr>active_hitboxes = [ArcHitbox (0, 0) 60 0 1 0 3 0], frame_counter = 5\<rparr>
   \<and> check_hits \<lparr>active_hitboxes = [ArcHitbox (0, 0) 60 0 1 0 3 0], frame_counter = 5\<rparr> 0
        (game duel) None = [1]
   \<and> \<not> ((0::int) \<le> 5 \<and> (5::int) \<le> 3)"
  by (simp add: hit_defs duel_defs eval_nat_numeral Let_def)

text \<open>
  C6 says that a hitbox registers at most one hit against a target over its whole
  window. \<open>check_hits\<close> keeps no record of earlier frames, and \<open>update_attack_frames\<close>
  calls it on every frame with no \<open>exclude_ids\<close>: the one swing of the duel hits the
  goblin, which stays at the centre of the arc, on the first frame and again on the
  second, and kills it (30 hp, 15 damage a hit).
\<close>

theorem one_swing_hits_twice:
  "update_attack_frames no_luck duel = Ticked duel1
   \<and> update_attack_frames no_luck duel1 = Ticked duel2
   \<and> check_hits (hitbox_manager duel1) 0 (game duel) None = [1]
   \<and> check_hits (hitbox_manager duel2) 0 (game duel1) None = [1]"
  by (simp add: update_attack_frames_def hit_defs combat_defs duel_defs
      add_xp_def add_xp_loop.simps py_int_def Let_def)

text \<open>Within one call of \<open>check_hits\<close> no entity is reported twice.\<close>

lemma check_entities_distinct:
  "distinct acc \<Longrightarrow> distinct (check_entities h a ex ents acc)"
  by (induction h a ex ents acc rule: check_entities.induct) auto

lemma check_hits_distinct: "distinct (check_hits m a w ex)"
proof -
  have "distinct acc \<Longrightarrow> distinct (fold (\<lambda>h hit_entities.
             check_hitbox h a (case ex of None \<Rightarrow> [] | Some ids \<Rightarrow> ids)
               (entities w) hit_entities) hs acc)" for hs acc
    by (induction hs arbitrary: acc) (auto simp: check_hitbox_def check_entities_distinct)
  then show ?thesis by (simp add: check_hits_def)
qed

section \<open>Pathfinding: snapping and the fallback\<close>

lemma ring_offsets_set: "set (ring_offsets rad) = {(dx, dy). \<bar>dx\<bar> + \<bar>dy\<bar> = rad}"
  by (auto simp: ring_offsets_def)

lemma find_ring:
  "find (\<lambda>(dx, dy). is_walkable lv (tx + dx) (ty + dy)) (ring_offsets rad) = None
     \<longleftrightarrow> (\<forall>px py. diamond tx ty px py = rad \<longrightarrow> \<not> is_walkable lv px py)"
proof -
  have "(\<forall>d \<in> set (ring_offsets rad). \<not> (case d of (dx, dy) \<Rightarrow> is_walkable lv (tx + dx) (ty + dy)))
      \<longleftrightarrow> (\<forall>px py. diamond tx ty px py = rad \<longrightarrow> \<not> is_walkable lv px py)"
  proof
    assume a: "\<forall>d \<in> set (ring_offsets rad). \<not> (case d of (dx, dy) \<Rightarrow> is_walkable lv (tx + dx) (ty + dy))"
    show "\<forall>px py. diamond tx ty px py = rad \<longrightarrow> \<not> is_walkable lv px py"
    proof (intro allI impI)
      fix px py assume "diamond tx ty px py = rad"
      then have "(px - tx, py - ty) \<in> set (ring_offsets rad)"
        by (simp add: ring_offsets_set diamond_def)
      from a [rule_format, OF this] show "\<not> is_walkable lv px py" by simp
    qed
  next
    assume a: "\<forall>px py. diamond tx ty px py = rad \<longrightarrow> \<not> is_walkable lv px py"
    show "\<forall>d \<in> set (ring_offsets rad). \<not> (case d of (dx, dy) \<Rightarrow> is_walkable lv (tx + dx) (ty + dy))"
      using a by (auto simp: ring_offsets_set diamond_def)
  qed
  then show ?thesis unfolding find_None_iff by blast
qed

lemma find_ring_Some:
  assumes "find (\<lambda>(dx, dy). is_walkable lv (tx + dx) (ty + dy)) (ring_offsets rad) = Some (dx, dy)"
  shows "is_walkable lv (tx + dx) (ty + dy) \<and> diamond tx ty (tx + dx) (ty + dy) = rad"
proof -
  from assms obtain i where "i < length (ring_offsets rad)" "(dx, dy) = ring_offsets rad ! i"
      "is_walkable lv (tx + dx) (ty + dy)"
    by (auto simp: find_Some_iff)
  then have "(dx, dy) \<in> set (ring_offsets rad)" "is_walkable lv (tx + dx) (ty + dy)"
    by simp_all
  then show ?thesis by (simp add: ring_offsets_set diamond_def)
qed

lemma search_rings_upto:
  "(case search_rings lv tx ty [a..b] of
      None \<Rightarrow> \<forall>px py. a \<le> diamond tx ty px py \<and> diamond tx ty px py \<le> b \<longrightarrow> \<not> is_walkable lv px py
    | Some (nx, ny) \<Rightarrow>
        is_walkable lv nx ny \<and> a \<le> diamond tx ty nx ny \<and> diamond tx ty nx ny \<le> b
        \<and> (\<forall>px py. a \<le> diamond tx ty px py \<and> diamond tx ty px py < diamond tx ty nx ny
              \<longrightarrow> \<not> is_walkable lv px py))"
proof (induction a b rule: upto.induct)
  case (1 a b)
  show ?case
  proof (cases "a \<le> b")
    case False
    then show ?thesis by (auto simp: upto.simps)
  next
    case True
    then have u: "[a..b] = a # [a + 1..b]" by (simp add: upto.simps)
    show ?thesis
    proof (cases "find (\<lambda>(dx, dy). is_walkable lv (tx + dx) (ty + dy)) (ring_offsets a)")
      case None
      then have ring: "\<forall>px py. diamond tx ty px py = a \<longrightarrow> \<not> is_walkable lv px py"
        by (simp add: find_ring)
      have eq: "search_rings lv tx ty [a..b] = search_rings lv tx ty [a + 1..b]"
        using None by (simp add: u)
      have le: "a \<le> d \<longleftrightarrow> d = a \<or> a + 1 \<le> d" for d :: int by auto
      show ?thesis
        unfolding eq using "1.IH" [OF True] ring
        by (auto split: option.splits simp: le)
    next
      case (Some d)
      obtain dx dy where d: "d = (dx, dy)" by (cases d)
      from find_ring_Some [OF Some [unfolded d]]
      have w: "is_walkable lv (tx + dx) (ty + dy)" "diamond tx ty (tx + dx) (ty + dy) = a"
        by simp_all
      have "search_rings lv tx ty [a..b] = Some (tx + dx, ty + dy)"
        using Some by (simp add: u d)
      then show ?thesis using w True by auto
    qed
  qed
qed

lemma diamond_zero: "diamond tx ty px py = 0 \<longleftrightarrow> px = tx \<and> py = ty"
  by (auto simp: diamond_def)

lemma diamond_nonneg: "0 \<le> diamond tx ty px py"
  by (simp add: diamond_def)

lemma snap_tile_nearest:
  "case snap_tile lv tx ty of (nx, ny) \<Rightarrow>
     (is_walkable lv tx ty \<longrightarrow> (nx, ny) = (tx, ty))
   \<and> (\<not> is_walkable lv tx ty \<longrightarrow>
        (if \<exists>px py. is_walkable lv px py \<and> diamond tx ty px py \<le> 5
         then is_walkable lv nx ny \<and> 1 \<le> diamond tx ty nx ny \<and> diamond tx ty nx ny \<le> 5
              \<and> (\<forall>px py. is_walkable lv px py \<longrightarrow> diamond tx ty nx ny \<le> diamond tx ty px py)
         else (nx, ny) = (tx, ty)))"
proof (cases "is_walkable lv tx ty")
  case True
  then show ?thesis by (simp add: snap_tile_def)
next
  case False
  have far: "1 \<le> diamond tx ty px py" if "is_walkable lv px py" for px py
  proof -
    have "diamond tx ty px py \<noteq> 0" using that False by (auto simp: diamond_zero)
    then show ?thesis using diamond_nonneg [of tx ty px py] by linarith
  qed
  show ?thesis
  proof (cases "search_rings lv tx ty [1..5]")
    case None
    then have "\<forall>px py. 1 \<le> diamond tx ty px py \<and> diamond tx ty px py \<le> 5 \<longrightarrow> \<not> is_walkable lv px py"
      using search_rings_upto [where lv = lv and tx = tx and ty = ty and a = 1 and b = 5] by simp
    then have "\<not> (\<exists>px py. is_walkable lv px py \<and> diamond tx ty px py \<le> 5)"
      using far by blast
    then show ?thesis using False None by (simp add: snap_tile_def find_nearest_walkable_def)
  next
    case (Some t)
    obtain nx ny where t: "t = (nx, ny)" by (cases t)
    from search_rings_upto [where lv = lv and tx = tx and ty = ty and a = 1 and b = 5] Some t
    have n: "is_walkable lv nx ny" "1 \<le> diamond tx ty nx ny" "diamond tx ty nx ny \<le> 5"
      and m: "\<forall>px py. 1 \<le> diamond tx ty px py \<and> diamond tx ty px py < diamond tx ty nx ny
              \<longrightarrow> \<not> is_walkable lv px py"
      by simp_all
    have "diamond tx ty nx ny \<le> diamond tx ty px py" if "is_walkable lv px py" for px py
      using m far [OF that] that by (meson not_le)
    moreover have "snap_tile lv tx ty = (nx, ny)"
      using False Some t by (simp add: snap_tile_def find_nearest_walkable_def)
    ultimately show ?thesis using n False by auto
  qed
qed

lemma astar_reaches_goal:
  "astar_loop lv goal_x goal_y open_set closed_set = Some n \<Longrightarrow> node_x n = goal_x \<and> node_y n = goal_y"
proof (induction lv goal_x goal_y open_set closed_set rule: astar_loop.induct)
  case (1 lv goal_x goal_y open_set closed_set)
  show ?case
  proof (cases "heappop open_set")
    case None
    then show ?thesis using "1.prems" by (subst (asm) astar_loop.simps) simp
  next
    case (Some popped)
    obtain current open1 where p: "popped = (current, open1)" by (cases popped)
    note pop = Some [unfolded p]
    show ?thesis
    proof (cases "(node_x current, node_y current) \<in> closed_set")
      case True
      have "astar_loop lv goal_x goal_y open1 closed_set = Some n"
        using "1.prems" pop True by (subst (asm) astar_loop.simps) simp
      then show ?thesis using "1.IH"(1) [OF pop refl True] by simp
    next
      case False
      show ?thesis
      proof (cases "node_x current = goal_x \<and> node_y current = goal_y")
        case True
        then have "n = current"
          using "1.prems" pop False by (subst (asm) astar_loop.simps) (simp add: Let_def)
        then show ?thesis using True by simp
      next
        case ng: False
        have "astar_loop lv goal_x goal_y
                (push_neighbors goal_x goal_y current (insert (node_x current, node_y current) closed_set)
                   (get_neighbors lv (node_x current) (node_y current)) open1)
                (insert (node_x current, node_y current) closed_set) = Some n"
          using "1.prems" pop False ng by (subst (asm) astar_loop.simps) (simp add: Let_def)
        then show ?thesis using "1.IH"(2) [OF pop refl False refl ng] by simp
      qed
    qed
  qed
qed

lemma snap_tile_alt:
  "(if \<not> is_walkable lv a b then find_nearest_walkable lv a b 5 else (a, b)) = snap_tile lv a b"
  by (simp add: snap_tile_def)

lemma find_path_eq:
  assumes "tile_size pf \<noteq> 0"
  shows "find_path pf sx sy gx gy =
     Inr (case search (path_level pf) (snapped pf sx sy) (snapped pf gx gy) of
            None \<Rightarrow> [(gx, gy)]
          | Some current \<Rightarrow> rev (path_back (tile_size pf) current))"
proof -
  obtain stx sty where s: "snapped pf sx sy = (stx, sty)" by (cases "snapped pf sx sy")
  obtain gtx gty where t: "snapped pf gx gy = (gtx, gty)" by (cases "snapped pf gx gy")
  show ?thesis
    unfolding find_path_def Let_def snap_tile_alt snapped_def [symmetric] s t search_def
    using assms by (simp split: option.splits)
qed

lemma heappush_empty: "heappush [] n = [n]"
  by (simp add: heappush_def siftdown_def siftdown_loop.simps)

lemma heappop_single: "heappop [n] = Some (n, [])"
  by (simp add: heappop_def)

lemma heappop_empty: "heappop [] = None"
  by (simp add: heappop_def)

lemma search_blocked:
  assumes "\<forall>tx ty. \<not> is_walkable lv tx ty"
  shows "search lv s t = (if s = t then Some (Node (fst s) (snd s) 0 (heuristic (fst s) (snd s) (fst t) (snd t)) None) else None)"
proof -
  have nb: "get_neighbors lv tx ty = []" for tx ty
    using assms by (simp add: get_neighbors_def)
  have e: "astar_loop lv a b [] c = None" for a b c
    by (subst astar_loop.simps) (simp add: heappop_empty)
  show ?thesis
    unfolding search_def heappush_empty
    by (subst astar_loop.simps) (auto simp: heappop_single nb e Let_def prod_eq_iff)
qed

lemmas level_defs = wall_tile_def floor_tile_def sealed_def hall_def nook_def

lemmas path_defs = find_path_def find_nearest_walkable_def ring_offsets_def get_neighbors_def
  directions_def is_walkable_def get_tile_def heuristic_def heappush_def heappop_def siftdown_def
  siftup_def siftdown_loop.simps siftup_loop.simps astar_loop.simps node_lt_def f_cost_def
  upto.simps

text \<open>
  C7. \<open>find_path\<close> always ends: a tile size of \<open>0\<close> raises, any other returns a path. It
  searches from the snapped start tile to the snapped goal tile: a walkable tile is
  kept; a non-walkable one is replaced by a walkable tile of least diamond distance,
  found in the rings of radius 1 to 5, and kept when there is none within 5. When the
  search empties the open set the result is exactly \<open>[(goal_x, goal_y)]\<close>; a search that
  returns a node has reached the goal tile. On a level with no walkable tile, start and
  goal in different tiles give the fallback.
\<close>

theorem find_path_snap_and_fallback:
  "find_path pf sx sy gx gy =
     (if tile_size pf = 0 then Inl ZeroDivisionError
      else Inr (case search (path_level pf) (snapped pf sx sy) (snapped pf gx gy) of
                  None \<Rightarrow> [(gx, gy)]
                | Some current \<Rightarrow> rev (path_back (tile_size pf) current)))
   \<and> (\<forall>n. search (path_level pf) (snapped pf sx sy) (snapped pf gx gy) = Some n
         \<longrightarrow> (node_x n, node_y n) = snapped pf gx gy)
   \<and> (\<forall>tx ty. case snap_tile (path_level pf) tx ty of (nx, ny) \<Rightarrow>
         (is_walkable (path_level pf) tx ty \<longrightarrow> (nx, ny) = (tx, ty))
       \<and> (\<not> is_walkable (path_level pf) tx ty \<longrightarrow>
            (if \<exists>px py. is_walkable (path_level pf) px py \<and> diamond tx ty px py \<le> 5
             then is_walkable (path_level pf) nx ny
                  \<and> 1 \<le> diamond tx ty nx ny \<and> diamond tx ty nx ny \<le> 5
                  \<and> (\<forall>px py. is_walkable (path_level pf) px py
                        \<longrightarrow> diamond tx ty nx ny \<le> diamond tx ty px py)
             else (nx, ny) = (tx, ty))))
   \<and> (tile_size pf \<noteq> 0 \<and> (\<forall>tx ty. \<not> is_walkable (path_level pf) tx ty)
        \<and> snapped pf sx sy \<noteq> snapped pf gx gy
        \<longrightarrow> find_path pf sx sy gx gy = Inr [(gx, gy)])"
proof (intro conjI allI impI)
  show "find_path pf sx sy gx gy =
     (if tile_size pf = 0 then Inl ZeroDivisionError
      else Inr (case search (path_level pf) (snapped pf sx sy) (snapped pf gx gy) of
                  None \<Rightarrow> [(gx, gy)]
                | Some current \<Rightarrow> rev (path_back (tile_size pf) current)))"
  proof (cases "tile_size pf = 0")
    case True
    then show ?thesis by (simp add: find_path_def)
  next
    case False
    then show ?thesis by (simp add: find_path_eq)
  qed
next
  fix n
  assume "search (path_level pf) (snapped pf sx sy) (snapped pf gx gy) = Some n"
  then show "(node_x n, node_y n) = snapped pf gx gy"
    unfolding search_def by (auto dest: astar_reaches_goal)
next
  fix tx ty
  show "case snap_tile (path_level pf) tx ty of (nx, ny) \<Rightarrow>
             (is_walkable (path_level pf) tx ty \<longrightarrow> (nx, ny) = (tx, ty))
           \<and> (\<not> is_walkable (path_level pf) tx ty \<longrightarrow>
                (if \<exists>px py. is_walkable (path_level pf) px py \<and> diamond tx ty px py \<le> 5
                 then is_walkable (path_level pf) nx ny
                      \<and> 1 \<le> diamond tx ty nx ny \<and> diamond tx ty nx ny \<le> 5
                      \<and> (\<forall>px py. is_walkable (path_level pf) px py
                            \<longrightarrow> diamond tx ty nx ny \<le> diamond tx ty px py)
                 else (nx, ny) = (tx, ty)))"
    by (rule snap_tile_nearest)
next
  assume "tile_size pf \<noteq> 0 \<and> (\<forall>tx ty. \<not> is_walkable (path_level pf) tx ty)
        \<and> snapped pf sx sy \<noteq> snapped pf gx gy"
  then show "find_path pf sx sy gx gy = Inr [(gx, gy)]"
    by (simp add: find_path_eq search_blocked)
qed

theorem find_path_snap_and_fallback_witness:
  "find_path sealed 10 10 80 10 = Inr [(80, 10)]
   \<and> find_path hall 10 10 80 10 = Inr [(16, 16), (48, 16), (80, 16)]
   \<and> snapped nook 80 10 = (0, 0)
   \<and> find_path nook 10 10 80 10 = Inr [(16, 16)]"
  using find_path_snap_and_fallback [of sealed 10 10 80 10]
  by (simp add: snapped_def snap_tile_def path_defs level_defs Let_def)


text \<open>
  On a level with no walkable tile and with start and goal in the same tile the search
  does reach the goal, at once, and the result is the centre of that tile.
\<close>

lemma find_path_same_tile:
  "find_path sealed 10 10 20 10 = Inr [(16, 16)]"
  by (simp add: path_defs level_defs Let_def)

end
